theory Spec2Isabelle
  imports Complex_Main "HOL-Library.Product_Lexorder"
begin

section \<open>Python and numpy values\<close>

text \<open>
  The exceptions the code under study can raise, each with its message. Floating-point
  numbers are modelled by the reals: the sums, products and differences that the code
  under study forms are exact. Rounding decides whether the code raises or returns in one
  place only, the inversion of a matrix, and there it is modelled.
\<close>

datatype error =
    ValueError string
  | TypeError string
  | AttributeError string
  | IndexError string
  | LinAlgError string

text \<open>
  An array value: its shape and its entries in row-major order, as numpy stores a
  contiguous array.
\<close>

record array =
  shape :: "nat list"
  data :: "real list"

text \<open>\<^verbatim>\<open>xs.index(x)\<close>: the position of the first occurrence (\<open>length xs\<close> when there is none,
  where Python raises; \<open>py_index\<close> makes the raise explicit).\<close>

fun list_index :: "'a list \<Rightarrow> 'a \<Rightarrow> nat" where
  "list_index [] x = 0"
| "list_index (y # ys) x = (if x = y then 0 else Suc (list_index ys x))"

definition py_index :: "'a list \<Rightarrow> 'a \<Rightarrow> error + nat" where
  "py_index xs x =
     (if x \<in> set xs then Inr (list_index xs x) else Inl (ValueError ''x is not in list''))"

text \<open>A list comprehension whose element expression can raise: the first exception wins.\<close>

fun comprehension :: "('a \<Rightarrow> error + 'b) \<Rightarrow> 'a list \<Rightarrow> error + 'b list" where
  "comprehension f [] = Inr []"
| "comprehension f (x # xs) =
     (case f x of
        Inl e \<Rightarrow> Inl e
      | Inr y \<Rightarrow> (case comprehension f xs of Inl e \<Rightarrow> Inl e | Inr ys \<Rightarrow> Inr (y # ys)))"

subsection \<open>numpy on array values\<close>

text \<open>
  The constructor below only lets a two-dimensional \<open>K\<close> and an \<open>(n, 1)\<close> column \<open>h\<close>
  into an object, so indexing and products are modelled on two-dimensional arrays; on any
  other shape the functions return the exception numpy raises for too few dimensions or
  misaligned shapes.
\<close>

text \<open>\<^verbatim>\<open>A[np.ix_(rows, cols)]\<close>: the block of the listed rows and columns, a new array.\<close>

definition getitem_ix :: "array \<Rightarrow> nat list \<Rightarrow> nat list \<Rightarrow> error + array" where
  "getitem_ix A rows cols =
     (if length (shape A) \<noteq> 2 then Inl (IndexError ''too many indices for array'')
      else if list_all (\<lambda>r. r < shape A ! 0) rows \<and> list_all (\<lambda>c. c < shape A ! 1) cols
      then Inr \<lparr>shape = [length rows, length cols],
                data = concat (map (\<lambda>r. map (\<lambda>c. data A ! (r * (shape A ! 1) + c)) cols) rows)\<rparr>
      else Inl (IndexError ''index is out of bounds''))"

text \<open>\<^verbatim>\<open>A[idx]\<close> for a list of integers: the listed entries along the first axis, a new array.\<close>

definition getitem_rows :: "array \<Rightarrow> nat list \<Rightarrow> error + array" where
  "getitem_rows A idx =
     (case shape A of
        [] \<Rightarrow> Inl (IndexError ''too many indices for array'')
      | m # rest \<Rightarrow>
          if list_all (\<lambda>i. i < m) idx
          then Inr \<lparr>shape = length idx # rest,
                    data = concat (map (\<lambda>i. take (prod_list rest) (drop (i * prod_list rest) (data A))) idx)\<rparr>
          else Inl (IndexError ''index is out of bounds''))"

text \<open>\<^verbatim>\<open>A.T\<close> of a two-dimensional array (arrays of fewer dimensions are their own transpose).\<close>

definition transpose_T :: "array \<Rightarrow> array" where
  "transpose_T A =
     (if length (shape A) = 2
      then \<lparr>shape = [shape A ! 1, shape A ! 0],
            data = concat (map (\<lambda>j. map (\<lambda>i. data A ! (i * (shape A ! 1) + j)) [0..<shape A ! 0])
                               [0..<shape A ! 1])\<rparr>
      else A)"

text \<open>\<^verbatim>\<open>np.dot(A, B)\<close> of two-dimensional arrays: the matrix product.\<close>

definition np_dot :: "array \<Rightarrow> array \<Rightarrow> error + array" where
  "np_dot A B =
     (if length (shape A) = 2 \<and> length (shape B) = 2 \<and> shape A ! 1 = shape B ! 0
      then Inr \<lparr>shape = [shape A ! 0, shape B ! 1],
                data = concat (map (\<lambda>i. map (\<lambda>j.
                         (\<Sum>k\<leftarrow>[0..<shape A ! 1].
                            data A ! (i * (shape A ! 1) + k) * data B ! (k * (shape B ! 1) + j)))
                         [0..<shape B ! 1]) [0..<shape A ! 0])\<rparr>
      else Inl (ValueError ''shapes not aligned''))"

text \<open>\<^verbatim>\<open>c * A\<close> for a Python float \<open>c\<close>.\<close>

definition scalar_mult :: "real \<Rightarrow> array \<Rightarrow> array" where
  "scalar_mult c A = A\<lparr>data := map (\<lambda>x. c * x) (data A)\<rparr>"

text \<open>
  An elementwise binary operation with numpy's broadcasting, in the cases the code
  reaches: equal shapes, and one operand all of whose dimensions are 1 (its single
  entry is combined with every entry of the other operand, whose shape is padded with
  leading ones to the longer rank).
\<close>

definition pad_shape :: "nat \<Rightarrow> nat list \<Rightarrow> nat list" where
  "pad_shape r shp = replicate (r - length shp) 1 @ shp"

definition broadcast :: "(real \<Rightarrow> real \<Rightarrow> real) \<Rightarrow> array \<Rightarrow> array \<Rightarrow> error + array" where
  "broadcast f A B =
     (if shape A = shape B then Inr \<lparr>shape = shape A, data = map2 f (data A) (data B)\<rparr>
      else if list_all (\<lambda>d. d = 1) (shape B) \<and> data B \<noteq> []
      then Inr \<lparr>shape = pad_shape (length (shape B)) (shape A),
                data = map (\<lambda>x. f x (hd (data B))) (data A)\<rparr>
      else if list_all (\<lambda>d. d = 1) (shape A) \<and> data A \<noteq> []
      then Inr \<lparr>shape = pad_shape (length (shape A)) (shape B),
                data = map (\<lambda>x. f (hd (data A)) x) (data B)\<rparr>
      else Inl (ValueError ''operands could not be broadcast together''))"

subsection \<open>np.linalg.inv\<close>

text \<open>
  \<^verbatim>\<open>np.linalg.inv\<close> belongs to numpy, not to the repository, so the methods that call it
  take the routine as a parameter \<open>linalg_inv\<close>: what it returns or raises on \<open>K\<close> is what
  the method works with, and the statements about these methods hold for every routine.

  In the examples the parameter is \<open>lapack_inv\<close>, the routine as numpy runs it: LAPACK's
  \<^verbatim>\<open>dgesv\<close> with the identity as right-hand side, in binary64 arithmetic. The matrix is
  factored by elimination with partial pivoting: the pivot of a column is its first entry
  of largest absolute value, a multiplier is the product with the rounded reciprocal of
  the pivot (the quotient when the pivot is subnormal), and it is stored in place of the
  entry it eliminates. The rows of the identity go through the same exchanges and
  eliminations and are then solved against the upper triangle, from the last row up. Every
  product, difference and quotient is rounded to the nearest binary64 number, ties to
  even. The routine raises \<^verbatim>\<open>LinAlgError("Singular matrix")\<close> exactly when a pivot is zero
  after rounding, whether or not the matrix has an inverse.
\<close>

type_synonym row = "real list \<times> real list"

text \<open>Rounding to binary64: 53 significant bits, the least exponent \<open>-1074\<close> (so subnormal
  numbers and underflow to zero are included); overflow is not modelled.\<close>

definition pow2 :: "int \<Rightarrow> real" where
  "pow2 e = (if 0 \<le> e then 2 ^ nat e else 1 / 2 ^ nat (- e))"

definition round_even :: "real \<Rightarrow> int" where
  "round_even x =
     (let n = \<lfloor>x\<rfloor>; d = x - of_int n
      in if d < 1 / 2 then n else if 1 / 2 < d then n + 1 else if even n then n else n + 1)"

function scale_down :: "real \<Rightarrow> int \<Rightarrow> real \<times> int" where
  "scale_down m e = (if 2 ^ 53 \<le> m then scale_down (m / 2) (e + 1) else (m, e))"
  by auto
termination
proof (relation "measure (\<lambda>(m, e). nat \<lfloor>m\<rfloor>)")
  show "wf (measure (\<lambda>(m, e). nat \<lfloor>m\<rfloor>))" by simp
next
  fix m :: real and e :: int
  assume a: "2 ^ 53 \<le> m"
  have "\<lfloor>m / 2\<rfloor> < \<lfloor>m\<rfloor>" using a by (simp add: floor_less_iff) linarith
  moreover have "0 < \<lfloor>m\<rfloor>" using a by simp
  ultimately show "((m / 2, e + 1), (m, e)) \<in> measure (\<lambda>(m, e). nat \<lfloor>m\<rfloor>)" by simp
qed

function scale_up :: "real \<Rightarrow> int \<Rightarrow> real \<times> int" where
  "scale_up m e = (if m < 2 ^ 52 \<and> - 1074 < e then scale_up (2 * m) (e - 1) else (m, e))"
  by auto
termination by (relation "measure (\<lambda>(m, e). nat (e + 1074))") auto

declare scale_down.simps [simp del] scale_up.simps [simp del]

definition fl64 :: "real \<Rightarrow> real" where
  "fl64 x =
     (if x = 0 then 0
      else (let (m1, e1) = scale_down \<bar>x\<bar> 0; (m2, e2) = scale_up m1 e1
            in sgn x * of_int (round_even m2) * pow2 e2))"

text \<open>The row of the pivot of column \<open>j\<close>, the multiplier of a row, and the elimination of
  column \<open>j\<close> from a row \<open>r\<close> with the pivot row \<open>p\<close>.\<close>

definition pivot_row :: "nat \<Rightarrow> row list \<Rightarrow> nat" where
  "pivot_row j rs =
     fold (\<lambda>l p. if \<bar>fst (rs ! p) ! j\<bar> < \<bar>fst (rs ! l) ! j\<bar> then l else p) [Suc j..<length rs] j"

definition multiplier :: "real \<Rightarrow> real \<Rightarrow> real" where
  "multiplier a piv =
     (if pow2 (- 1022) \<le> \<bar>piv\<bar> then fl64 (a * fl64 (1 / piv)) else fl64 (a / piv))"

definition eliminate :: "nat \<Rightarrow> row \<Rightarrow> row \<Rightarrow> row" where
  "eliminate j p r =
     (let l = multiplier (fst r ! j) (fst p ! j)
      in (map (\<lambda>k. if k < j then fst r ! k else if k = j then l
                     else fl64 (fst r ! k - fl64 (l * fst p ! k))) [0..<length (fst r)],
          map2 (\<lambda>x y. fl64 (x - fl64 (l * y))) (snd r) (snd p)))"

definition lu_step :: "nat \<Rightarrow> row list \<Rightarrow> row list option" where
  "lu_step j rs =
     (let p = pivot_row j rs
      in if fst (rs ! p) ! j = 0 then None
         else (let rs1 = rs[j := rs ! p, p := rs ! j]
               in Some (map (\<lambda>l. if l \<le> j then rs1 ! l else eliminate j (rs1 ! j) (rs1 ! l))
                            [0..<length rs])))"

fun lu :: "nat list \<Rightarrow> row list \<Rightarrow> row list option" where
  "lu [] rs = Some rs"
| "lu (j # js) rs = (case lu_step j rs of None \<Rightarrow> None | Some rs' \<Rightarrow> lu js rs')"

text \<open>Row \<open>k\<close> is divided by its pivot and eliminated from the rows above it.\<close>

definition back_step :: "nat \<Rightarrow> row list \<Rightarrow> row list" where
  "back_step k rs =
     (let x = map (\<lambda>b. fl64 (b / fst (rs ! k) ! k)) (snd (rs ! k))
      in map (\<lambda>i. if i < k
                   then (fst (rs ! i),
                         map2 (\<lambda>b xk. fl64 (b - fl64 (xk * fst (rs ! i) ! k))) (snd (rs ! i)) x)
                   else if i = k then (fst (rs ! k), x) else rs ! i) [0..<length rs])"

definition augmented :: "array \<Rightarrow> row list" where
  "augmented A =
     (let n = shape A ! 0
      in map (\<lambda>i. (map (\<lambda>j. data A ! (i * n + j)) [0..<n],
                    map (\<lambda>j. if i = j then 1 else 0) [0..<n])) [0..<n])"

definition lapack_inv :: "array \<Rightarrow> error + array" where
  "lapack_inv A =
     (if length (shape A) = 2 \<and> shape A ! 0 = shape A ! 1
      then (case lu [0..<shape A ! 0] (augmented A) of
              None \<Rightarrow> Inl (LinAlgError ''Singular matrix'')
            | Some rs \<Rightarrow>
                Inr \<lparr>shape = shape A,
                     data = concat (map snd (fold back_step (rev [0..<length rs]) rs))\<rparr>)
      else Inl (LinAlgError ''Last 2 dimensions of the array must be square''))"

section \<open>Objects and the store\<close>

text \<open>
  An \<^verbatim>\<open>ndarray\<close> object is a header (its shape) over a buffer; a view shares the buffer
  of its base. Buffers and factor objects live in the store, at the address given by
  their position; a fresh object takes the next address.
\<close>

record ndarray =
  nd_shape :: "nat list"
  nd_buf :: nat

text \<open>What the parameter \<open>g\<close> can hold: a Python number, or an array.\<close>

datatype pyval = PyNum real | PyNd ndarray

text \<open>A bound density function: the density of a moment-form Gaussian (given by its mean
  and covariance arrays), or a function supplied by the caller, known by a tag only.\<close>

datatype pdf_fn = Gaussian_pdf ndarray ndarray | Supplied_pdf nat

text \<open>
  Modelled from the spec: the base class \<^verbatim>\<open>ContinuousFactor\<close> is not among the sources.
  By the data model of the spec it holds the scope and the optional density function
  (absent by default); \<^verbatim>\<open>scope()\<close> returns the scope. A canonical form has the attributes
  scope, K, h, g and density, and no other.
\<close>

record ContinuousFactor =
  variables :: "string list"
  pdf :: "pdf_fn option"

record CanonicalFactor = ContinuousFactor +
  K :: ndarray
  h :: ndarray
  g :: pyval

text \<open>
  Modelled from the spec: the class \<^verbatim>\<open>JointGaussianDistribution\<close> (its constructor and its
  attribute \<^verbatim>\<open>pdf\<close>) is not among the sources. By the spec the moment-form Gaussian is
  constructed from (scope, mean, covariance), carries these three, and exposes the
  density function that \<^verbatim>\<open>assignment\<close> binds.
\<close>

record JointGaussianDistribution = ContinuousFactor +
  mean :: ndarray
  covariance :: ndarray

text \<open>Modelled from the spec: the constructor of \<^verbatim>\<open>JointGaussianDistribution\<close>, which is
  not among the sources; it stores its arguments and binds the density of the Gaussian
  with this mean and covariance.\<close>

definition JointGaussianDistribution_init ::
  "string list \<Rightarrow> ndarray \<Rightarrow> ndarray \<Rightarrow> JointGaussianDistribution" where
  "JointGaussianDistribution_init vars m c =
     \<lparr>variables = vars, pdf = Some (Gaussian_pdf m c), mean = m, covariance = c\<rparr>"

record heap =
  bufs :: "real list list"
  objs :: "CanonicalFactor list"

definition array_of :: "heap \<Rightarrow> ndarray \<Rightarrow> array" where
  "array_of s a = \<lparr>shape = nd_shape a, data = bufs s ! nd_buf a\<rparr>"

definition new_ndarray :: "array \<Rightarrow> heap \<Rightarrow> ndarray \<times> heap" where
  "new_ndarray A s =
     (\<lparr>nd_shape = shape A, nd_buf = length (bufs s)\<rparr>, s\<lparr>bufs := bufs s @ [data A]\<rparr>)"

text \<open>\<^verbatim>\<open>a.flat[i] = v\<close>: an in-place write into the buffer of an array.\<close>

definition setitem :: "ndarray \<Rightarrow> nat \<Rightarrow> real \<Rightarrow> heap \<Rightarrow> heap" where
  "setitem a i v s = s\<lparr>bufs := (bufs s)[nd_buf a := (bufs s ! nd_buf a)[i := v]]\<rparr>"

text \<open>
  An array-like argument: a float \<^verbatim>\<open>ndarray\<close> object, which \<^verbatim>\<open>np.asarray\<close> returns as it
  is and \<^verbatim>\<open>np.reshape\<close> returns a view of; or any other sequence (nested lists, an array of
  integers), given by its value, which numpy converts into a fresh float array.
\<close>

datatype array_like = Ndarray ndarray | Sequence array

definition shape_of :: "array_like \<Rightarrow> nat list" where
  "shape_of x = (case x of Ndarray a \<Rightarrow> nd_shape a | Sequence A \<Rightarrow> shape A)"

definition py_len :: "array_like \<Rightarrow> error + nat" where
  "py_len x =
     (case shape_of x of
        [] \<Rightarrow> Inl (TypeError ''len() of unsized object'')
      | m # rest \<Rightarrow> Inr m)"

definition np_asarray :: "array_like \<Rightarrow> heap \<Rightarrow> ndarray \<times> heap" where
  "np_asarray x s = (case x of Ndarray a \<Rightarrow> (a, s) | Sequence A \<Rightarrow> new_ndarray A s)"

definition np_reshape :: "array_like \<Rightarrow> nat list \<Rightarrow> heap \<Rightarrow> (error + ndarray) \<times> heap" where
  "np_reshape x shp s =
     (if prod_list (shape_of x) \<noteq> prod_list shp
      then (Inl (ValueError ''cannot reshape array''), s)
      else (case x of
              Ndarray a \<Rightarrow> (Inr (a\<lparr>nd_shape := shp\<rparr>), s)
            | Sequence A \<Rightarrow>
                (let (a, s1) = new_ndarray \<lparr>shape = shp, data = data A\<rparr> s in (Inr a, s1))))"

section \<open>CanonicalFactor\<close>

text \<open>
  Every method takes the store and returns its result, or the exception it raised, with
  the store it leaves behind. \<open>self\<close> is the address of the receiver.
\<close>

subsection \<open>The constructor\<close>

text \<open>
  When the shape of \<open>K\<close> is wrong, the code builds the message of its \<^verbatim>\<open>ValueError\<close> from
  \<^verbatim>\<open>self.covariance.shape\<close>; the object has no attribute of that name, so evaluating
  the argument raises \<^verbatim>\<open>AttributeError\<close> and the \<^verbatim>\<open>ValueError\<close> is never built.
  The object is stored only when \<^verbatim>\<open>__init__\<close> returns.
\<close>

definition init ::
  "string list \<Rightarrow> array_like \<Rightarrow> array_like \<Rightarrow> pyval \<Rightarrow> pdf_fn option \<Rightarrow> heap
     \<Rightarrow> (error + nat) \<times> heap" where
  "init vars K0 h0 g0 pdf0 s =
     (let no_of_var = length vars in
      case py_len h0 of
        Inl e \<Rightarrow> (Inl e, s)
      | Inr l \<Rightarrow>
          if l \<noteq> no_of_var
          then (Inl (ValueError
                  ''Length of h parameter vector must be equal to thenumber of variables.''), s)
          else (case np_reshape h0 [no_of_var, 1] s of
                  (Inl e, s1) \<Rightarrow> (Inl e, s1)
                | (Inr h1, s1) \<Rightarrow>
                    (let (K1, s2) = np_asarray K0 s1 in
                     if nd_shape K1 \<noteq> [no_of_var, no_of_var]
                     then (Inl (AttributeError
                             ''CanonicalFactor object has no attribute covariance''), s2)
                     else (Inr (length (objs s2)),
                           s2\<lparr>objs := objs s2 @
                                [\<lparr>variables = vars, pdf = pdf0, K = K1, h = h1, g = g0\<rparr>]\<rparr>))))"

subsection \<open>copy\<close>

definition copy :: "nat \<Rightarrow> heap \<Rightarrow> (error + nat) \<times> heap" where
  "copy self s =
     (let f = objs s ! self;
          (K_copy, s1) = new_ndarray (array_of s (K f)) s;
          (h_copy, s2) = new_ndarray (array_of s1 (h f)) s1
      in case init (variables f) (Ndarray K_copy) (Ndarray h_copy) (g f) (pdf f) s2 of
           (Inl e, s3) \<Rightarrow> (Inl e, s3)
         | (Inr copy_factor, s3) \<Rightarrow>
             if pdf f \<noteq> None
             then (Inr copy_factor,
                   s3\<lparr>objs := (objs s3)[copy_factor := (objs s3 ! copy_factor)\<lparr>pdf := pdf f\<rparr>]\<rparr>)
             else (Inr copy_factor, s3))"

subsection \<open>to\_joint\_gaussian\<close>

definition to_joint_gaussian ::
  "(array \<Rightarrow> error + array) \<Rightarrow> nat \<Rightarrow> heap \<Rightarrow> (error + JointGaussianDistribution) \<times> heap" where
  "to_joint_gaussian linalg_inv self s =
     (let f = objs s ! self in
      case linalg_inv (array_of s (K f)) of
        Inl e \<Rightarrow> (Inl e, s)
      | Inr cov \<Rightarrow>
          (let (cov_nd, s1) = new_ndarray cov s in
           case np_dot cov (array_of s1 (h f)) of
             Inl e \<Rightarrow> (Inl e, s1)
           | Inr m \<Rightarrow>
               (let (mean_nd, s2) = new_ndarray m s1
                in (Inr (JointGaussianDistribution_init (variables f) mean_nd cov_nd), s2))))"

subsection \<open>assignment\<close>

text \<open>
  Modelled from the spec: \<^verbatim>\<open>ContinuousFactor.assignment\<close> is not among the sources. It
  evaluates the bound density function at the given point; the value is kept symbolic.
  Calling an absent density (\<^verbatim>\<open>None\<close>) raises \<^verbatim>\<open>TypeError\<close>.
\<close>

datatype density_value = Pdf_at pdf_fn "real list"

definition ContinuousFactor_assignment ::
  "nat \<Rightarrow> real list \<Rightarrow> heap \<Rightarrow> (error + density_value) \<times> heap" where
  "ContinuousFactor_assignment self args s =
     (case pdf (objs s ! self) of
        None \<Rightarrow> (Inl (TypeError ''NoneType object is not callable''), s)
      | Some p \<Rightarrow> (Inr (Pdf_at p args), s))"

definition assignment ::
  "(array \<Rightarrow> error + array) \<Rightarrow> nat \<Rightarrow> real list \<Rightarrow> heap \<Rightarrow> (error + density_value) \<times> heap" where
  "assignment linalg_inv self args s =
     (if pdf (objs s ! self) = None
      then (case to_joint_gaussian linalg_inv self s of
              (Inl e, s1) \<Rightarrow> (Inl e, s1)
            | (Inr j, s1) \<Rightarrow>
                ContinuousFactor_assignment self args
                  (s1\<lparr>objs := (objs s1)[self := (objs s1 ! self)\<lparr>pdf := pdf j\<rparr>]\<rparr>))
      else ContinuousFactor_assignment self args s)"

subsection \<open>reduce\<close>

text \<open>\<^verbatim>\<open>self.g + B\<close>: a Python number is added to every entry; an array is broadcast.\<close>

definition py_add :: "heap \<Rightarrow> pyval \<Rightarrow> array \<Rightarrow> error + array" where
  "py_add s g0 B =
     (case g0 of
        PyNum x \<Rightarrow> Inr (B\<lparr>data := map (\<lambda>b. x + b) (data B)\<rparr>)
      | PyNd a \<Rightarrow> broadcast (\<lambda>x b. x + b) (array_of s a) B)"

text \<open>
  The argument \<open>values\<close> is a list of pairs by its type, so the \<^verbatim>\<open>isinstance\<close> test of the
  code passes. The blocks and the observation vector are computed first; then the
  target object \<open>phi\<close> (the receiver, or its copy) is assigned field by field, in the
  order of the code. In \<open>index_to_keep\<close> every variable looked up is in the list.
\<close>

definition reduce_blocks ::
  "array \<Rightarrow> array \<Rightarrow> nat list \<Rightarrow> nat list \<Rightarrow> error + (array \<times> array \<times> array \<times> array \<times> array)" where
  "reduce_blocks KA hA index_to_keep index_to_reduce =
     (case getitem_ix KA index_to_keep index_to_keep of
        Inl e \<Rightarrow> Inl e
      | Inr K_i_i \<Rightarrow>
     (case getitem_ix KA index_to_keep index_to_reduce of
        Inl e \<Rightarrow> Inl e
      | Inr K_i_j \<Rightarrow>
     (case getitem_ix KA index_to_reduce index_to_reduce of
        Inl e \<Rightarrow> Inl e
      | Inr K_j_j \<Rightarrow>
     (case getitem_rows hA index_to_keep of
        Inl e \<Rightarrow> Inl e
      | Inr h_i \<Rightarrow>
     (case getitem_rows hA index_to_reduce of
        Inl e \<Rightarrow> Inl e
      | Inr h_j \<Rightarrow> Inr (K_i_i, K_i_j, K_j_j, h_i, h_j))))))"

text \<open>\<^verbatim>\<open>h_i - np.dot(K_i_j, y)\<close>\<close>

definition reduce_h :: "array \<Rightarrow> array \<Rightarrow> array \<Rightarrow> error + array" where
  "reduce_h h_i K_i_j y =
     (case np_dot K_i_j y of
        Inl e \<Rightarrow> Inl e
      | Inr Ky \<Rightarrow> broadcast (\<lambda>a b. a - b) h_i Ky)"

text \<open>\<^verbatim>\<open>self.g + np.dot(h_j.T, y) - 0.5 * np.dot(np.dot(y.T, K_j_j), y)\<close>\<close>

definition reduce_g :: "heap \<Rightarrow> pyval \<Rightarrow> array \<Rightarrow> array \<Rightarrow> array \<Rightarrow> error + array" where
  "reduce_g s g0 h_j K_j_j y =
     (case np_dot (transpose_T h_j) y of
        Inl e \<Rightarrow> Inl e
      | Inr hy \<Rightarrow>
     (case py_add s g0 hy of
        Inl e \<Rightarrow> Inl e
      | Inr g_hy \<Rightarrow>
     (case np_dot (transpose_T y) K_j_j of
        Inl e \<Rightarrow> Inl e
      | Inr yK \<Rightarrow>
     (case np_dot yK y of
        Inl e \<Rightarrow> Inl e
      | Inr yKy \<Rightarrow> broadcast (\<lambda>a b. a - b) g_hy (scalar_mult 0.5 yKy)))))"

text \<open>The observation vector: the values sorted by the index of their variable, as a column.\<close>

definition observation :: "string list \<Rightarrow> (string \<times> real) list \<Rightarrow> nat \<Rightarrow> array" where
  "observation vars values r =
     \<lparr>shape = [r, 1],
      data = map snd (sort (map (\<lambda>(v, x). (list_index vars v, x)) values))\<rparr>"

definition reduce ::
  "nat \<Rightarrow> (string \<times> real) list \<Rightarrow> bool \<Rightarrow> heap \<Rightarrow> (error + nat option) \<times> heap" where
  "reduce self values inplace s =
     (case (if inplace then (Inr self, s) else copy self s) of
        (Inl e, s1) \<Rightarrow> (Inl e, s1)
      | (Inr phi, s1) \<Rightarrow>
     (let f = objs s1 ! self;
          var_to_reduce = map fst values;
          index_to_keep = map (list_index (variables f))
                            (filter (\<lambda>v. v \<notin> set var_to_reduce) (variables f))
      in
     (case comprehension (py_index (variables f)) var_to_reduce of
        Inl e \<Rightarrow> (Inl e, s1)
      | Inr index_to_reduce \<Rightarrow>
     (case reduce_blocks (array_of s1 (K f)) (array_of s1 (h f)) index_to_keep index_to_reduce of
        Inl e \<Rightarrow> (Inl e, s1)
      | Inr (K_i_i, K_i_j, K_j_j, h_i, h_j) \<Rightarrow>
     (let y = observation (variables f) values (length index_to_reduce);
          (K_nd, s2) = new_ndarray K_i_i s1;
          s3 = s2\<lparr>objs := (objs s2)[phi := (objs s2 ! phi)
                   \<lparr>variables := map (\<lambda>i. variables f ! i) index_to_keep, K := K_nd\<rparr>]\<rparr>
      in
     (case reduce_h h_i K_i_j y of
        Inl e \<Rightarrow> (Inl e, s3)
      | Inr h_new \<Rightarrow>
     (let (h_nd, s4) = new_ndarray h_new s3;
          s5 = s4\<lparr>objs := (objs s4)[phi := (objs s4 ! phi)\<lparr>h := h_nd\<rparr>]\<rparr>
      in
     (case reduce_g s5 (g f) h_j K_j_j y of
        Inl e \<Rightarrow> (Inl e, s5)
      | Inr g_new \<Rightarrow>
     (let (g_nd, s6) = new_ndarray g_new s5;
          s7 = s6\<lparr>objs := (objs s6)[phi := (objs s6 ! phi)\<lparr>g := PyNd g_nd, pdf := None\<rparr>]\<rparr>
      in (Inr (if inplace then None else Some phi), s7))))))))))"

section \<open>Well-formed objects\<close>

text \<open>
  What the constructor establishes and every method keeps: the buffers of an object
  exist and have the size of their shape, \<open>K\<close> is \<open>n \<times> n\<close> and \<open>h\<close> is \<open>n \<times> 1\<close> for the
  \<open>n\<close> variables of the scope, and \<open>g\<close> is a number or a \<open>1 \<times> 1\<close> array.
\<close>

definition valid_ndarray :: "heap \<Rightarrow> ndarray \<Rightarrow> bool" where
  "valid_ndarray s a \<longleftrightarrow>
     nd_buf a < length (bufs s) \<and> length (bufs s ! nd_buf a) = prod_list (nd_shape a)"

definition valid_factor :: "heap \<Rightarrow> CanonicalFactor \<Rightarrow> bool" where
  "valid_factor s f \<longleftrightarrow>
     valid_ndarray s (K f) \<and> valid_ndarray s (h f) \<and>
     nd_shape (K f) = [length (variables f), length (variables f)] \<and>
     nd_shape (h f) = [length (variables f), 1] \<and>
     (case g f of PyNum x \<Rightarrow> True | PyNd a \<Rightarrow> valid_ndarray s a \<and> nd_shape a = [1, 1])"

definition valid_object :: "heap \<Rightarrow> nat \<Rightarrow> bool" where
  "valid_object s self \<longleftrightarrow> self < length (objs s) \<and> valid_factor s (objs s ! self)"

text \<open>An array-like argument whose entries are as many as its shape says: an array object
  of the store, or a sequence.\<close>

definition valid_array_like :: "heap \<Rightarrow> array_like \<Rightarrow> bool" where
  "valid_array_like s x \<longleftrightarrow>
     (case x of Ndarray a \<Rightarrow> valid_ndarray s a
      | Sequence A \<Rightarrow> length (data A) = prod_list (shape A))"

section \<open>Notions of the statements\<close>

text \<open>The entry \<open>A[i, j]\<close> of a two-dimensional array, and an \<open>m \<times> q\<close> array.\<close>

definition entry :: "array \<Rightarrow> nat \<Rightarrow> nat \<Rightarrow> real" where
  "entry A i j = data A ! (i * (shape A ! 1) + j)"

definition matrix :: "nat \<Rightarrow> nat \<Rightarrow> array \<Rightarrow> bool" where
  "matrix m q A \<longleftrightarrow> shape A = [m, q] \<and> length (data A) = m * q"

text \<open>The number a value of \<open>g\<close> stands for: itself, or the entry of a \<open>1 \<times> 1\<close> array.\<close>

definition g_value :: "heap \<Rightarrow> pyval \<Rightarrow> real" where
  "g_value s v = (case v of PyNum x \<Rightarrow> x | PyNd a \<Rightarrow> entry (array_of s a) 0 0)"

text \<open>The positions in the scope of the variables that \<open>values\<close> does not name, in
  increasing order, and the positions of the variables it names, in the order given.\<close>

definition kept_positions :: "string list \<Rightarrow> (string \<times> real) list \<Rightarrow> nat list" where
  "kept_positions vars values =
     filter (\<lambda>i. vars ! i \<notin> set (map fst values)) [0..<length vars]"

definition reduced_positions :: "string list \<Rightarrow> (string \<times> real) list \<Rightarrow> nat list" where
  "reduced_positions vars values = map (\<lambda>p. list_index vars (fst p)) values"

text \<open>The array with entry \<open>f r c\<close> for each listed row \<open>r\<close> and column \<open>c\<close>.\<close>

definition tabulate2 :: "nat list \<Rightarrow> nat list \<Rightarrow> (nat \<Rightarrow> nat \<Rightarrow> real) \<Rightarrow> array" where
  "tabulate2 rows cols f =
     \<lparr>shape = [length rows, length cols], data = concat (map (\<lambda>r. map (f r) cols) rows)\<rparr>"

text \<open>The object \<open>reduce\<close> leaves behind: the kept scope, no density, and \<open>K\<close>, \<open>h\<close>, \<open>g\<close>
  in three fresh buffers from address \<open>L\<close> on.\<close>

definition reduced_object :: "CanonicalFactor \<Rightarrow> string list \<Rightarrow> nat \<Rightarrow> nat \<Rightarrow> CanonicalFactor" where
  "reduced_object f kept k L =
     f\<lparr>variables := kept,
       K := \<lparr>nd_shape = [k, k], nd_buf = L\<rparr>,
       h := \<lparr>nd_shape = [k, 1], nd_buf = Suc L\<rparr>,
       g := PyNd \<lparr>nd_shape = [1, 1], nd_buf = Suc (Suc L)\<rparr>,
       pdf := None\<rparr>"

text \<open>The object \<open>reduce\<close> assigns to: the receiver, or the copy, which is the next object of
  the store.\<close>

definition target :: "bool \<Rightarrow> nat \<Rightarrow> heap \<Rightarrow> nat" where
  "target inplace self s = (if inplace then self else length (objs s))"

text \<open>
  The store after \<^verbatim>\<open>phi = CanonicalFactor(['X1', 'X2', 'X3'], [[1, -1, 0], [-1, 4, -2],
  [0, -2, 4]], [[1], [4], [-1]], -2)\<close>, the example of the docstring of \<^verbatim>\<open>reduce\<close>, run on
  the empty store: \<open>phi\<close> is object 0.
\<close>

definition example_store :: heap where
  "example_store =
     \<lparr>bufs = [[1, 4, -1], [1, -1, 0, -1, 4, -2, 0, -2, 4]],
      objs = [\<lparr>variables = [''X1'', ''X2'', ''X3''], pdf = None,
               K = \<lparr>nd_shape = [3, 3], nd_buf = 1\<rparr>,
               h = \<lparr>nd_shape = [3, 1], nd_buf = 0\<rparr>,
               g = PyNum (-2)\<rparr>]\<rparr>"

text \<open>The same store when the example is constructed with a density function of the
  caller.\<close>

definition example_store_pdf :: heap where
  "example_store_pdf =
     \<lparr>bufs = [[1, 4, -1], [1, -1, 0, -1, 4, -2, 0, -2, 4]],
      objs = [\<lparr>variables = [''X1'', ''X2'', ''X3''], pdf = Some (Supplied_pdf 0),
               K = \<lparr>nd_shape = [3, 3], nd_buf = 1\<rparr>,
               h = \<lparr>nd_shape = [3, 1], nd_buf = 0\<rparr>,
               g = PyNum (-2)\<rparr>]\<rparr>"

text \<open>
  Four more stores, each the result of a construction on the empty store.
  \<^verbatim>\<open>CanonicalFactor(['x1', 'x2'], [[4, 2], [2, 2]], [[6], [2]], 1)\<close>: the inverse of this \<open>K\<close>
  is \<open>[[0.5, -0.5], [-0.5, 1]]\<close> and no step of its computation rounds.
  \<^verbatim>\<open>CanonicalFactor(['X', 'Y'], [[1, -1], [-1, 1]], [[1], [-1]], -3)\<close>, the example of the
  docstring of the constructor: this \<open>K\<close> is singular, and the elimination meets the
  pivot \<open>1 - 1 = 0\<close>.
  \<^verbatim>\<open>CanonicalFactor(['X', 'Y'], [[11, 33], [33, 99]], [[1], [1]], 0)\<close>: this \<open>K\<close> is singular
  too (its second row is three times the first).
  \<^verbatim>\<open>CanonicalFactor(['X', 'Y'], [[3, 1], [1, 1/3]], [[1], [1]], 0)\<close>, where \<^verbatim>\<open>1/3\<close> is the
  Python float, the binary64 number \<open>6004799503160661 / 2\<^sup>5\<^sup>4\<close>: the determinant of this
  \<open>K\<close> is \<open>-1 / 2\<^sup>5\<^sup>4\<close>, so it has an inverse.
\<close>

definition gaussian_store :: heap where
  "gaussian_store =
     \<lparr>bufs = [[6, 2], [4, 2, 2, 2]],
      objs = [\<lparr>variables = [''x1'', ''x2''], pdf = None,
               K = \<lparr>nd_shape = [2, 2], nd_buf = 1\<rparr>,
               h = \<lparr>nd_shape = [2, 1], nd_buf = 0\<rparr>,
               g = PyNum 1\<rparr>]\<rparr>"

definition singular_store :: heap where
  "singular_store =
     \<lparr>bufs = [[1, -1], [1, -1, -1, 1]],
      objs = [\<lparr>variables = [''X'', ''Y''], pdf = None,
               K = \<lparr>nd_shape = [2, 2], nd_buf = 1\<rparr>,
               h = \<lparr>nd_shape = [2, 1], nd_buf = 0\<rparr>,
               g = PyNum (-3)\<rparr>]\<rparr>"

definition rank_one_store :: heap where
  "rank_one_store =
     \<lparr>bufs = [[1, 1], [11, 33, 33, 99]],
      objs = [\<lparr>variables = [''X'', ''Y''], pdf = None,
               K = \<lparr>nd_shape = [2, 2], nd_buf = 1\<rparr>,
               h = \<lparr>nd_shape = [2, 1], nd_buf = 0\<rparr>,
               g = PyNum 0\<rparr>]\<rparr>"

definition near_singular_store :: heap where
  "near_singular_store =
     \<lparr>bufs = [[1, 1], [3, 1, 1, 6004799503160661 / 18014398509481984]],
      objs = [\<lparr>variables = [''X'', ''Y''], pdf = None,
               K = \<lparr>nd_shape = [2, 2], nd_buf = 1\<rparr>,
               h = \<lparr>nd_shape = [2, 1], nd_buf = 0\<rparr>,
               g = PyNum 0\<rparr>]\<rparr>"

section \<open>Arrays: entries of the results of the numpy operations\<close>

lemma index_bound: "i < m \<Longrightarrow> j < q \<Longrightarrow> i * q + j < m * (q::nat)"
proof -
  assume a: "i < m" "j < q"
  have "i * q + j < Suc i * q" using a by simp
  also have "\<dots> \<le> m * q" using a by (intro mult_le_mono1) simp
  finally show ?thesis .
qed

lemma length_concat_map2:
  "length (concat (map (\<lambda>r. map (f r) cols) rows)) = length rows * length cols"
  by (induction rows) auto

lemma nth_concat_map2:
  "a < length rows \<Longrightarrow> b < length cols \<Longrightarrow>
   concat (map (\<lambda>r. map (f r) cols) rows) ! (a * length cols + b) = f (rows ! a) (cols ! b)"
proof (induction rows arbitrary: a)
  case Nil
  then show ?case by simp
next
  case (Cons r rows)
  show ?case
  proof (cases a)
    case 0
    then show ?thesis using Cons.prems by (simp add: nth_append)
  next
    case (Suc a')
    then show ?thesis using Cons.prems Cons.IH[of a'] by (simp add: nth_append)
  qed
qed

lemma matrix_tabulate2: "matrix (length rows) (length cols) (tabulate2 rows cols f)"
  by (simp add: matrix_def tabulate2_def length_concat_map2)

lemma shape_tabulate2: "shape (tabulate2 rows cols f) = [length rows, length cols]"
  by (simp add: tabulate2_def)

lemma entry_tabulate2:
  "a < length rows \<Longrightarrow> b < length cols \<Longrightarrow>
   entry (tabulate2 rows cols f) a b = f (rows ! a) (cols ! b)"
  by (simp add: entry_def tabulate2_def nth_concat_map2)

lemma sum_list_upt: "(\<Sum>k\<leftarrow>[0..<p]. f k) = (\<Sum>k<p. (f k :: real))"
  by (simp add: interv_sum_list_conv_sum_set_nat atLeast0LessThan)

lemma entry_fun: "entry A = (\<lambda>i j. data A ! (i * (shape A ! 1) + j))"
  by (intro ext) (simp add: entry_def)

lemma getitem_ix_matrix:
  assumes "matrix m q A" "list_all (\<lambda>r. r < m) rows" "list_all (\<lambda>c. c < q) cols"
  shows "getitem_ix A rows cols = Inr (tabulate2 rows cols (entry A))"
  using assms by (simp add: getitem_ix_def matrix_def tabulate2_def entry_fun)

lemma take1_drop: "i < length d \<Longrightarrow> take (Suc 0) (drop i d) = [d ! i]"
  by (metis Cons_nth_drop_Suc take0 take_Suc_Cons)

lemma getitem_rows_column:
  assumes "matrix m 1 A" "list_all (\<lambda>i. i < m) idx"
  shows "getitem_rows A idx = Inr (tabulate2 idx [0] (entry A))"
proof -
  have "concat (map (\<lambda>i. take (Suc 0) (drop i (data A))) idx) = concat (map (\<lambda>r. [data A ! r]) idx)"
    using assms by (intro arg_cong[where f=concat] map_cong) (auto simp: matrix_def list_all_iff take1_drop)
  then show ?thesis
    using assms by (simp add: getitem_rows_def matrix_def tabulate2_def entry_fun)
qed

lemma transpose_T_matrix:
  assumes "matrix m q A"
  shows "transpose_T A = tabulate2 [0..<q] [0..<m] (\<lambda>j i. entry A i j)"
  using assms by (simp add: transpose_T_def matrix_def tabulate2_def entry_def)

lemma np_dot_matrix:
  assumes "matrix m p A" "matrix p q B"
  shows "np_dot A B = Inr (tabulate2 [0..<m] [0..<q] (\<lambda>i j. \<Sum>k<p. entry A i k * entry B k j))"
  using assms by (simp add: np_dot_def matrix_def tabulate2_def entry_def sum_list_upt)

lemma broadcast_matrix:
  assumes "matrix m q A" "matrix m q B"
  shows "broadcast f A B = Inr (tabulate2 [0..<m] [0..<q] (\<lambda>i j. f (entry A i j) (entry B i j)))"
proof -
  have len: "length (data A) = m * q" "length (data B) = m * q"
    using assms by (simp_all add: matrix_def)
  have "map2 f (data A) (data B) = concat (map (\<lambda>r. map (\<lambda>c. f (entry A r c) (entry B r c)) [0..<q]) [0..<m])"
  proof (rule nth_equalityI)
    show "length (map2 f (data A) (data B)) = length (concat (map (\<lambda>r. map (\<lambda>c. f (entry A r c) (entry B r c)) [0..<q]) [0..<m]))"
      using len by (simp add: length_concat_map2)
  next
    fix k assume "k < length (map2 f (data A) (data B))"
    then have k: "k < m * q" using len by simp
    then have q: "0 < q" by (cases q) auto
    define a b where "a = k div q" and "b = k mod q"
    have ab: "a < m" "b < q" "k = a * q + b"
      using k q by (simp_all add: a_def b_def less_mult_imp_div_less)
    have "concat (map (\<lambda>r. map (\<lambda>c. f (entry A r c) (entry B r c)) [0..<q]) [0..<m]) ! (a * length [0..<q] + b)
          = f (entry A ([0..<m] ! a) ([0..<q] ! b)) (entry B ([0..<m] ! a) ([0..<q] ! b))"
      using ab by (intro nth_concat_map2) simp_all
    then show "map2 f (data A) (data B) ! k = concat (map (\<lambda>r. map (\<lambda>c. f (entry A r c) (entry B r c)) [0..<q]) [0..<m]) ! k"
      using ab k len assms by (simp add: entry_def matrix_def)
  qed
  then show ?thesis using assms by (simp add: broadcast_def matrix_def tabulate2_def)
qed

lemma scalar_mult_matrix:
  assumes "matrix m q A"
  shows "matrix m q (scalar_mult c A)"
    and "i < m \<Longrightarrow> j < q \<Longrightarrow> entry (scalar_mult c A) i j = c * entry A i j"
  using assms index_bound[of i m j q] by (simp_all add: scalar_mult_def matrix_def entry_def)

lemma list_index_less: "x \<in> set xs \<Longrightarrow> list_index xs x < length xs"
  by (induction xs) auto

lemma nth_list_index: "x \<in> set xs \<Longrightarrow> xs ! list_index xs x = x"
  by (induction xs) auto

lemma comprehension_py_index:
  "set vs \<subseteq> set xs \<Longrightarrow> comprehension (py_index xs) vs = Inr (map (list_index xs) vs)"
  by (induction vs) (auto simp: py_index_def)

lemma comprehension_py_index_Inr:
  "comprehension (py_index xs) vs = Inr r \<Longrightarrow> set vs \<subseteq> set xs"
  by (induction vs arbitrary: r) (auto simp: py_index_def split: sum.splits if_splits)

lemma valid_object_matrices:
  assumes "valid_object s self"
  shows "matrix (length (variables (objs s ! self))) (length (variables (objs s ! self)))
           (array_of s (K (objs s ! self)))"
    and "matrix (length (variables (objs s ! self))) 1 (array_of s (h (objs s ! self)))"
  using assms by (simp_all add: valid_object_def valid_factor_def valid_ndarray_def matrix_def array_of_def)

lemma init_Ndarray:
  assumes "nd_shape hh = [length vars, 1]" "nd_shape KK = [length vars, length vars]"
  shows "init vars (Ndarray KK) (Ndarray hh) g0 p s =
           (Inr (length (objs s)),
            s\<lparr>objs := objs s @ [\<lparr>variables = vars, pdf = p, K = KK, h = hh, g = g0\<rparr>]\<rparr>)"
  using assms by (simp add: init_def py_len_def shape_of_def np_reshape_def np_asarray_def)

lemma copy_valid:
  assumes "valid_object s self"
  shows "copy self s =
           (Inr (length (objs s)),
            s\<lparr>bufs := bufs s @ [bufs s ! nd_buf (K (objs s ! self)), bufs s ! nd_buf (h (objs s ! self))],
              objs := objs s @ [(objs s ! self)
                 \<lparr>K := \<lparr>nd_shape = nd_shape (K (objs s ! self)), nd_buf = length (bufs s)\<rparr>,
                  h := \<lparr>nd_shape = nd_shape (h (objs s ! self)), nd_buf = Suc (length (bufs s))\<rparr>\<rparr>]\<rparr>)"
proof -
  define f where "f = objs s ! self"
  have v: "nd_shape (K f) = [length (variables f), length (variables f)]"
          "nd_shape (h f) = [length (variables f), 1]"
          "nd_buf (h f) < length (bufs s)"
    using assms by (simp_all add: valid_object_def valid_factor_def valid_ndarray_def f_def)
  show ?thesis
    unfolding copy_def f_def[symmetric] Let_def new_ndarray_def array_of_def
    using v by (simp add: init_Ndarray nth_append)
qed

section \<open>reduce on a well-formed object\<close>

lemma keep_bound:
  "list_all (\<lambda>i. i < length xs) (map (list_index xs) (filter P xs))"
  by (simp add: list_all_iff list_index_less)

lemma red_bound:
  "set vs \<subseteq> set xs \<Longrightarrow> list_all (\<lambda>i. i < length xs) (map (list_index xs) vs)"
  by (auto simp: list_all_iff list_index_less)

lemma matrix_observation:
  "matrix (length values) 1 (observation vars values (length values))"
  by (simp add: matrix_def observation_def)

lemma reduce_blocks_matrix:
  assumes "matrix n n KA" "matrix n 1 hA"
    and "list_all (\<lambda>i. i < n) keep" "list_all (\<lambda>i. i < n) red"
  shows "reduce_blocks KA hA keep red =
           Inr (tabulate2 keep keep (entry KA), tabulate2 keep red (entry KA),
                tabulate2 red red (entry KA), tabulate2 keep [0] (entry hA),
                tabulate2 red [0] (entry hA))"
  using assms by (simp add: reduce_blocks_def getitem_ix_matrix getitem_rows_column)

lemma reduce_h_matrix:
  assumes "matrix k 1 h_i" "matrix k r K_i_j" "matrix r 1 y"
  shows "\<exists>hn. reduce_h h_i K_i_j y = Inr hn \<and> matrix k 1 hn \<and>
           (\<forall>a<k. entry hn a 0 = entry h_i a 0 - (\<Sum>b<r. entry K_i_j a b * entry y b 0))"
proof -
  let ?Ky = "tabulate2 [0..<k] [0..<1] (\<lambda>i j. \<Sum>b<r. entry K_i_j i b * entry y b j)"
  have d: "np_dot K_i_j y = Inr ?Ky" using assms by (simp add: np_dot_matrix)
  have m: "matrix k 1 ?Ky" using matrix_tabulate2[of "[0..<k]" "[0..<1]"] by simp
  let ?hn = "tabulate2 [0..<k] [0..<1] (\<lambda>i j. entry h_i i j - entry ?Ky i j)"
  have b: "broadcast (\<lambda>a b. a - b) h_i ?Ky = Inr ?hn"
    using assms(1) m by (rule broadcast_matrix)
  have "matrix k 1 ?hn" using matrix_tabulate2[of "[0..<k]" "[0..<1]"] by simp
  moreover have "\<forall>a<k. entry ?hn a 0 = entry h_i a 0 - (\<Sum>b<r. entry K_i_j a b * entry y b 0)"
    by (simp add: entry_tabulate2)
  ultimately show ?thesis using d b by (simp add: reduce_h_def)
qed

lemma py_add_matrix:
  assumes "matrix 1 1 B"
    and "case g0 of PyNum x \<Rightarrow> True | PyNd a \<Rightarrow> matrix 1 1 (array_of s a)"
  shows "\<exists>C. py_add s g0 B = Inr C \<and> matrix 1 1 C \<and> entry C 0 0 = g_value s g0 + entry B 0 0"
proof (cases g0)
  case (PyNum x)
  then show ?thesis using assms(1)
    by (simp add: py_add_def matrix_def entry_def g_value_def)
next
  case (PyNd a)
  then have m: "matrix 1 1 (array_of s a)" using assms(2) by simp
  let ?C = "tabulate2 [0..<1] [0..<1] (\<lambda>i j. entry (array_of s a) i j + entry B i j)"
  have "broadcast (\<lambda>x b. x + b) (array_of s a) B = Inr ?C"
    using m assms(1) by (rule broadcast_matrix)
  moreover have "matrix 1 1 ?C" using matrix_tabulate2[of "[0..<1]" "[0..<1]"] by simp
  moreover have "entry ?C 0 0 = entry (array_of s a) 0 0 + entry B 0 0"
    by (simp add: entry_tabulate2)
  ultimately show ?thesis using PyNd by (simp add: py_add_def g_value_def)
qed

lemma reduce_g_matrix:
  assumes "matrix r 1 h_j" "matrix r r K_j_j" "matrix r 1 y"
    and g: "case g0 of PyNum x \<Rightarrow> True | PyNd a \<Rightarrow> matrix 1 1 (array_of s a)"
  shows "\<exists>gn. reduce_g s g0 h_j K_j_j y = Inr gn \<and> matrix 1 1 gn \<and>
           entry gn 0 0 = g_value s g0 + (\<Sum>b<r. entry h_j b 0 * entry y b 0)
                          - 0.5 * (\<Sum>b<r. (\<Sum>a<r. entry y a 0 * entry K_j_j a b) * entry y b 0)"
proof -
  let ?hT = "tabulate2 [0..<1] [0..<r] (\<lambda>j i. entry h_j i j)"
  let ?yT = "tabulate2 [0..<1] [0..<r] (\<lambda>j i. entry y i j)"
  have hT: "transpose_T h_j = ?hT" "matrix 1 r ?hT"
    using assms(1) matrix_tabulate2[of "[0..<1]" "[0..<r]"] by (simp_all add: transpose_T_matrix)
  have yT: "transpose_T y = ?yT" "matrix 1 r ?yT"
    using assms(3) matrix_tabulate2[of "[0..<1]" "[0..<r]"] by (simp_all add: transpose_T_matrix)
  let ?hy = "tabulate2 [0..<1] [0..<1] (\<lambda>i j. \<Sum>k<r. entry ?hT i k * entry y k j)"
  have hy: "np_dot ?hT y = Inr ?hy" "matrix 1 1 ?hy"
    using np_dot_matrix[OF hT(2) assms(3)] matrix_tabulate2[of "[0..<1]" "[0..<1]"] by simp_all
  have hy0: "entry ?hy 0 0 = (\<Sum>b<r. entry h_j b 0 * entry y b 0)"
    by (simp add: entry_tabulate2)
  obtain C where C: "py_add s g0 ?hy = Inr C" "matrix 1 1 C"
      "entry C 0 0 = g_value s g0 + entry ?hy 0 0"
    using py_add_matrix[OF hy(2) g] by blast
  let ?yK = "tabulate2 [0..<1] [0..<r] (\<lambda>i j. \<Sum>k<r. entry ?yT i k * entry K_j_j k j)"
  have yK: "np_dot ?yT K_j_j = Inr ?yK" "matrix 1 r ?yK"
    using np_dot_matrix[OF yT(2) assms(2)] matrix_tabulate2[of "[0..<1]" "[0..<r]"] by simp_all
  let ?yKy = "tabulate2 [0..<1] [0..<1] (\<lambda>i j. \<Sum>k<r. entry ?yK i k * entry y k j)"
  have yKy: "np_dot ?yK y = Inr ?yKy" "matrix 1 1 ?yKy"
    using np_dot_matrix[OF yK(2) assms(3)] matrix_tabulate2[of "[0..<1]" "[0..<1]"] by simp_all
  have yKy0: "entry ?yKy 0 0 = (\<Sum>b<r. (\<Sum>a<r. entry y a 0 * entry K_j_j a b) * entry y b 0)"
    by (simp add: entry_tabulate2)
  have sm: "matrix 1 1 (scalar_mult 0.5 ?yKy)"
       "entry (scalar_mult 0.5 ?yKy) 0 0 = 0.5 * entry ?yKy 0 0"
    using scalar_mult_matrix(1)[OF yKy(2)] scalar_mult_matrix(2)[OF yKy(2), of 0 0] by simp_all
  let ?gn = "tabulate2 [0..<1] [0..<1] (\<lambda>i j. entry C i j - entry (scalar_mult 0.5 ?yKy) i j)"
  have gn: "broadcast (\<lambda>a b. a - b) C (scalar_mult 0.5 ?yKy) = Inr ?gn"
    using C(2) sm(1) by (rule broadcast_matrix)
  have "matrix 1 1 ?gn" using matrix_tabulate2[of "[0..<1]" "[0..<1]"] by simp
  moreover have "entry ?gn 0 0 = entry C 0 0 - entry (scalar_mult 0.5 ?yKy) 0 0"
    by (simp add: entry_tabulate2)
  moreover have "reduce_g s g0 h_j K_j_j y = Inr ?gn"
    unfolding reduce_g_def hT(1) yT(1) by (simp only: hy(1) C(1) yK(1) yKy(1) gn sum.case)
  ultimately show ?thesis using C(3) hy0 sm(2) yKy0 by auto
qed

lemma py_add_extend:
  assumes "case g0 of PyNum x \<Rightarrow> True | PyNd a \<Rightarrow> nd_buf a < length (bufs s)"
  shows "py_add (s\<lparr>bufs := bufs s @ ext, objs := os\<rparr>) g0 B = py_add s g0 B"
  using assms by (cases g0) (simp_all add: py_add_def array_of_def nth_append)

lemma reduce_g_extend:
  assumes "case g0 of PyNum x \<Rightarrow> True | PyNd a \<Rightarrow> nd_buf a < length (bufs s)"
  shows "reduce_g (s\<lparr>bufs := bufs s @ ext, objs := os\<rparr>) g0 h_j K_j_j y = reduce_g s g0 h_j K_j_j y"
  by (simp add: reduce_g_def py_add_extend[OF assms] cong: sum.case_cong)

lemma reduce_result:
  assumes v: "valid_object s self"
    and sub: "set (map fst values) \<subseteq> set (variables (objs s ! self))"
  defines "f \<equiv> objs s ! self"
  defines "keep \<equiv> map (list_index (variables f)) (filter (\<lambda>v. v \<notin> set (map fst values)) (variables f))"
  defines "red \<equiv> map (list_index (variables f)) (map fst values)"
  defines "y \<equiv> observation (variables f) values (length values)"
  defines "KA \<equiv> array_of s (K f)" and "hA \<equiv> array_of s (h f)"
  defines "L \<equiv> length (bufs s)"
  shows "\<exists>Kn hn gn.
     matrix (length keep) (length keep) Kn \<and>
     (\<forall>a<length keep. \<forall>b<length keep. entry Kn a b = entry KA (keep ! a) (keep ! b)) \<and>
     matrix (length keep) 1 hn \<and>
     (\<forall>a<length keep. entry hn a 0 =
         entry hA (keep ! a) 0 - (\<Sum>b<length values. entry KA (keep ! a) (red ! b) * entry y b 0)) \<and>
     matrix 1 1 gn \<and>
     entry gn 0 0 = g_value s (g f) + (\<Sum>b<length values. entry hA (red ! b) 0 * entry y b 0)
        - 0.5 * (\<Sum>b<length values. (\<Sum>a<length values. entry y a 0 * entry KA (red ! a) (red ! b)) * entry y b 0) \<and>
     reduce self values True s =
       (Inr None,
        s\<lparr>bufs := bufs s @ [data Kn, data hn, data gn],
          objs := (objs s)[self := reduced_object f (map (\<lambda>i. variables f ! i) keep) (length keep) L]\<rparr>) \<and>
     reduce self values False s =
       (Inr (Some (length (objs s))),
        s\<lparr>bufs := bufs s @ [data KA, data hA, data Kn, data hn, data gn],
          objs := objs s @ [reduced_object f (map (\<lambda>i. variables f ! i) keep) (length keep) (Suc (Suc L))]\<rparr>)"
proof -
  let ?n = "length (variables f)"
  let ?k = "length keep" and ?r = "length values"
  have lr: "length red = ?r" by (simp add: red_def)
  have mK: "matrix ?n ?n KA" and mh: "matrix ?n 1 hA"
    using valid_object_matrices[OF v] by (simp_all add: KA_def hA_def f_def)
  have kb: "list_all (\<lambda>i. i < ?n) keep" unfolding keep_def by (rule keep_bound)
  have rb: "list_all (\<lambda>i. i < ?n) red" unfolding red_def using sub by (intro red_bound) (simp add: f_def)
  have c: "comprehension (py_index (variables f)) (map fst values) = Inr red"
    unfolding red_def using sub by (intro comprehension_py_index) (simp add: f_def)
  let ?Kii = "tabulate2 keep keep (entry KA)" and ?Kij = "tabulate2 keep red (entry KA)"
  let ?Kjj = "tabulate2 red red (entry KA)" and ?hi = "tabulate2 keep [0] (entry hA)"
  let ?hj = "tabulate2 red [0] (entry hA)"
  have blocks: "reduce_blocks KA hA keep red = Inr (?Kii, ?Kij, ?Kjj, ?hi, ?hj)"
    using mK mh kb rb by (rule reduce_blocks_matrix)
  have my: "matrix ?r 1 y" unfolding y_def by (rule matrix_observation)
  have mKii: "matrix ?k ?k ?Kii" by (rule matrix_tabulate2)
  have mKij: "matrix ?k ?r ?Kij" using matrix_tabulate2[of keep red] lr by simp
  have mKjj: "matrix ?r ?r ?Kjj" using matrix_tabulate2[of red red] lr by simp
  have mhi: "matrix ?k 1 ?hi" using matrix_tabulate2[of keep "[0]"] by simp
  have mhj: "matrix ?r 1 ?hj" using matrix_tabulate2[of red "[0]"] lr by simp
  obtain hn where hn: "reduce_h ?hi ?Kij y = Inr hn" "matrix ?k 1 hn"
      "\<forall>a<?k. entry hn a 0 = entry ?hi a 0 - (\<Sum>b<?r. entry ?Kij a b * entry y b 0)"
    using reduce_h_matrix[OF mhi mKij my] by blast
  have gv: "case g f of PyNum x \<Rightarrow> True | PyNd a \<Rightarrow> matrix 1 1 (array_of s a)"
    using v by (auto simp: valid_object_def valid_factor_def valid_ndarray_def matrix_def array_of_def f_def
          split: pyval.splits)
  have gb: "case g f of PyNum x \<Rightarrow> True | PyNd a \<Rightarrow> nd_buf a < length (bufs s)"
    using v by (auto simp: valid_object_def valid_factor_def valid_ndarray_def f_def split: pyval.splits)
  obtain gn where gn: "reduce_g s (g f) ?hj ?Kjj y = Inr gn" "matrix 1 1 gn"
      "entry gn 0 0 = g_value s (g f) + (\<Sum>b<?r. entry ?hj b 0 * entry y b 0)
          - 0.5 * (\<Sum>b<?r. (\<Sum>a<?r. entry y a 0 * entry ?Kjj a b) * entry y b 0)"
    using reduce_g_matrix[OF mhj mKjj my gv] by blast
  have e1: "\<forall>a<?k. \<forall>b<?k. entry ?Kii a b = entry KA (keep ! a) (keep ! b)"
    by (simp add: entry_tabulate2)
  have e2: "\<forall>a<?k. entry hn a 0 =
         entry hA (keep ! a) 0 - (\<Sum>b<?r. entry KA (keep ! a) (red ! b) * entry y b 0)"
    using hn(3) lr by (simp add: entry_tabulate2)
  have e3: "entry gn 0 0 = g_value s (g f) + (\<Sum>b<?r. entry hA (red ! b) 0 * entry y b 0)
        - 0.5 * (\<Sum>b<?r. (\<Sum>a<?r. entry y a 0 * entry KA (red ! a) (red ! b)) * entry y b 0)"
    using gn(3) lr by (simp add: entry_tabulate2)
  have self: "self < length (objs s)" using v by (simp add: valid_object_def)
  have bK: "nd_buf (K f) < length (bufs s)" "nd_buf (h f) < length (bufs s)"
    using v by (simp_all add: valid_object_def valid_factor_def valid_ndarray_def f_def)
  have sh: "shape hn = [?k, 1]" "shape gn = [1, 1]"
    using hn(2) gn(2) by (simp_all add: matrix_def)
  have r1: "reduce self values True s =
       (Inr None,
        s\<lparr>bufs := bufs s @ [data ?Kii, data hn, data gn],
          objs := (objs s)[self := reduced_object f (map (\<lambda>i. variables f ! i) keep) ?k L]\<rparr>)"
    unfolding reduce_def
    using self c blocks hn(1) gn(1) reduce_g_extend[OF gb] sh
    by (simp add: f_def[symmetric] keep_def[symmetric] KA_def[symmetric] hA_def[symmetric] Let_def
         new_ndarray_def y_def[symmetric] lr reduced_object_def L_def shape_tabulate2 del: set_map)
  have cp: "copy self s =
           (Inr (length (objs s)),
            s\<lparr>bufs := bufs s @ [data KA, data hA],
              objs := objs s @ [f
                 \<lparr>K := \<lparr>nd_shape = nd_shape (K f), nd_buf = length (bufs s)\<rparr>,
                  h := \<lparr>nd_shape = nd_shape (h f), nd_buf = Suc (length (bufs s))\<rparr>\<rparr>]\<rparr>)"
    using copy_valid[OF v] by (simp add: f_def KA_def hA_def array_of_def)
  have aK: "\<And>ext os. array_of (s\<lparr>bufs := bufs s @ ext, objs := os\<rparr>) (K f) = KA"
           "\<And>ext os. array_of (s\<lparr>bufs := bufs s @ ext, objs := os\<rparr>) (h f) = hA"
    using bK by (simp_all add: array_of_def KA_def hA_def nth_append)
  have r2: "reduce self values False s =
       (Inr (Some (length (objs s))),
        s\<lparr>bufs := bufs s @ [data KA, data hA, data ?Kii, data hn, data gn],
          objs := objs s @ [reduced_object f (map (\<lambda>i. variables f ! i) keep) ?k (Suc (Suc L))]\<rparr>)"
    unfolding reduce_def
    using self c blocks hn(1) gn(1) reduce_g_extend[OF gb] sh aK
    by (simp add: cp f_def[symmetric] keep_def[symmetric] Let_def
         new_ndarray_def y_def[symmetric] lr reduced_object_def L_def shape_tabulate2 nth_append
         del: set_map)
  show ?thesis using r1 r2 e1 e2 e3 hn(2) gn(2) mKii by blast
qed

lemma array_eqI:
  assumes "matrix m q A" "matrix m q B"
    and "\<And>i j. i < m \<Longrightarrow> j < q \<Longrightarrow> entry A i j = entry B i j"
  shows "A = B"
proof -
  have "data A = data B"
  proof (rule nth_equalityI)
    show "length (data A) = length (data B)" using assms(1,2) by (simp add: matrix_def)
  next
    fix k assume "k < length (data A)"
    then have k: "k < m * q" using assms(1) by (simp add: matrix_def)
    then have q: "0 < q" by (cases q) auto
    have "k div q < m" using k q by (simp add: less_mult_imp_div_less)
    moreover have "k mod q < q" using q by simp
    ultimately have "entry A (k div q) (k mod q) = entry B (k div q) (k mod q)" by (rule assms(3))
    then show "data A ! k = data B ! k" using assms(1,2) by (simp add: entry_def matrix_def)
  qed
  then show ?thesis using assms(1,2) by (simp add: matrix_def)
qed

lemma reduce_post:
  fixes inplace :: bool
  assumes v: "valid_object s self"
    and sub: "set (map fst values) \<subseteq> set (variables (objs s ! self))"
  defines "f \<equiv> objs s ! self"
  defines "keep \<equiv> map (list_index (variables f)) (filter (\<lambda>v. v \<notin> set (map fst values)) (variables f))"
  defines "red \<equiv> map (list_index (variables f)) (map fst values)"
  defines "y \<equiv> observation (variables f) values (length values)"
  defines "KA \<equiv> array_of s (K f)" and "hA \<equiv> array_of s (h f)"
  defines "phi \<equiv> target inplace self s"
  shows "\<exists>s' g_nd.
     reduce self values inplace s = (Inr (if inplace then None else Some phi), s') \<and>
     variables (objs s' ! phi) = map (\<lambda>i. variables f ! i) keep \<and>
     pdf (objs s' ! phi) = None \<and>
     g (objs s' ! phi) = PyNd g_nd \<and>
     matrix (length keep) (length keep) (array_of s' (K (objs s' ! phi))) \<and>
     (\<forall>a<length keep. \<forall>b<length keep.
         entry (array_of s' (K (objs s' ! phi))) a b = entry KA (keep ! a) (keep ! b)) \<and>
     matrix (length keep) 1 (array_of s' (h (objs s' ! phi))) \<and>
     (\<forall>a<length keep. entry (array_of s' (h (objs s' ! phi))) a 0 =
         entry hA (keep ! a) 0 - (\<Sum>b<length values. entry KA (keep ! a) (red ! b) * entry y b 0)) \<and>
     matrix 1 1 (array_of s' g_nd) \<and>
     entry (array_of s' g_nd) 0 0 =
        g_value s (g f) + (\<Sum>b<length values. entry hA (red ! b) 0 * entry y b 0)
        - 0.5 * (\<Sum>b<length values. (\<Sum>a<length values. entry y a 0 * entry KA (red ! a) (red ! b)) * entry y b 0) \<and>
     take (length (bufs s)) (bufs s') = bufs s \<and>
     take (length (objs s)) (objs s') = (if inplace then (objs s)[self := objs s' ! self] else objs s) \<and>
     valid_object s' phi"
proof -
  obtain Kn hn gn where
    mK: "matrix (length keep) (length keep) Kn"
    and eK: "\<forall>a<length keep. \<forall>b<length keep. entry Kn a b = entry KA (keep ! a) (keep ! b)"
    and mh: "matrix (length keep) 1 hn"
    and eh: "\<forall>a<length keep. entry hn a 0 =
         entry hA (keep ! a) 0 - (\<Sum>b<length values. entry KA (keep ! a) (red ! b) * entry y b 0)"
    and mg: "matrix 1 1 gn"
    and eg: "entry gn 0 0 = g_value s (g f) + (\<Sum>b<length values. entry hA (red ! b) 0 * entry y b 0)
        - 0.5 * (\<Sum>b<length values. (\<Sum>a<length values. entry y a 0 * entry KA (red ! a) (red ! b)) * entry y b 0)"
    and r1: "reduce self values True s =
       (Inr None,
        s\<lparr>bufs := bufs s @ [data Kn, data hn, data gn],
          objs := (objs s)[self := reduced_object f (map (\<lambda>i. variables f ! i) keep) (length keep) (length (bufs s))]\<rparr>)"
    and r2: "reduce self values False s =
       (Inr (Some (length (objs s))),
        s\<lparr>bufs := bufs s @ [data KA, data hA, data Kn, data hn, data gn],
          objs := objs s @ [reduced_object f (map (\<lambda>i. variables f ! i) keep) (length keep) (Suc (Suc (length (bufs s))))]\<rparr>)"
    using reduce_result[OF v sub]
    unfolding f_def keep_def red_def y_def KA_def hA_def by blast
  have self: "self < length (objs s)" using v by (simp add: valid_object_def)
  have arr: "\<And>A sh. shape A = sh \<Longrightarrow> \<lparr>shape = sh, data = data A\<rparr> = A" by auto
  have shp: "shape Kn = [length keep, length keep]" "shape hn = [length keep, 1]" "shape gn = [1, 1]"
    "length (data Kn) = length keep * length keep" "length (data hn) = length keep" "length (data gn) = 1"
    using mK mh mg by (simp_all add: matrix_def)
  show ?thesis
  proof (cases inplace)
    case True
    show ?thesis
      apply (rule exI[of _ "s\<lparr>bufs := bufs s @ [data Kn, data hn, data gn],
          objs := (objs s)[self := reduced_object f (map (\<lambda>i. variables f ! i) keep) (length keep) (length (bufs s))]\<rparr>"])
      apply (rule exI[of _ "\<lparr>nd_shape = [1, 1], nd_buf = Suc (Suc (length (bufs s)))\<rparr>"])
      using True r1 self mK eK mh eh mg eg shp
      by (simp add: phi_def target_def reduced_object_def array_of_def nth_append arr
            valid_object_def valid_factor_def valid_ndarray_def)
  next
    case False
    show ?thesis
      apply (rule exI[of _ "s\<lparr>bufs := bufs s @ [data KA, data hA, data Kn, data hn, data gn],
          objs := objs s @ [reduced_object f (map (\<lambda>i. variables f ! i) keep) (length keep) (Suc (Suc (length (bufs s))))]\<rparr>"])
      apply (rule exI[of _ "\<lparr>nd_shape = [1, 1], nd_buf = Suc (Suc (Suc (Suc (length (bufs s)))))\<rparr>"])
      using False r2 self mK eK mh eh mg eg shp
      by (simp add: phi_def target_def reduced_object_def array_of_def nth_append arr
            valid_object_def valid_factor_def valid_ndarray_def)
  qed
qed

section \<open>The constructor\<close>

text \<open>
  What the constructor does on each kind of input: a wrong length of \<open>h\<close> raises the
  \<^verbatim>\<open>ValueError\<close> of the code; a wrong shape of \<open>K\<close> raises \<^verbatim>\<open>AttributeError\<close>, not the
  \<^verbatim>\<open>ValueError\<close> that was to name the shapes; consistent dimensions succeed, with no
  other check.
\<close>

lemma init_h_length_mismatch:
  assumes "shape_of h0 = m # rest" "m \<noteq> length vars"
  shows "init vars K0 h0 g0 p s =
           (Inl (ValueError ''Length of h parameter vector must be equal to thenumber of variables.''), s)"
  using assms by (simp add: init_def py_len_def)

lemma init_K_shape_mismatch:
  assumes "shape_of h0 = length vars # rest" "prod_list rest = 1"
    and "shape_of K0 \<noteq> [length vars, length vars]"
  shows "fst (init vars K0 h0 g0 p s) =
           Inl (AttributeError ''CanonicalFactor object has no attribute covariance'')"
  using assms
  by (cases h0; cases K0)
     (simp_all add: init_def py_len_def np_reshape_def np_asarray_def new_ndarray_def shape_of_def
        Let_def split_def)

lemma init_consistent:
  assumes "shape_of h0 = length vars # rest" "prod_list rest = 1"
    and "shape_of K0 = [length vars, length vars]"
  shows "\<exists>s'. init vars K0 h0 g0 p s = (Inr (length (objs s)), s') \<and>
           variables (objs s' ! length (objs s)) = vars \<and>
           pdf (objs s' ! length (objs s)) = p \<and>
           g (objs s' ! length (objs s)) = g0 \<and>
           nd_shape (K (objs s' ! length (objs s))) = [length vars, length vars] \<and>
           nd_shape (h (objs s' ! length (objs s))) = [length vars, 1]"
  using assms
  by (cases h0; cases K0)
     (simp_all add: init_def py_len_def np_reshape_def np_asarray_def new_ndarray_def shape_of_def
        Let_def split_def)

text \<open>
  Claim C3, at the input \<^verbatim>\<open>CanonicalFactor(['X', 'Y'], [[1, -1]], [[1], [-1]], -3)\<close>: the
  scope has two variables and \<open>K\<close> has shape \<open>(1, 2)\<close>. Construction fails, but with
  \<^verbatim>\<open>AttributeError\<close> (the message of the shape error reads the attribute
  \<^verbatim>\<open>covariance\<close>, which the object does not have), so no error naming the expected and
  the actual shape is raised.
\<close>

theorem init_K_shape_mismatch_AttributeError:
  "init [''X'', ''Y''] (Sequence \<lparr>shape = [1, 2], data = [1, -1]\<rparr>)
        (Sequence \<lparr>shape = [2, 1], data = [1, -1]\<rparr>) (PyNum (-3)) None \<lparr>bufs = [], objs = []\<rparr>
   = (Inl (AttributeError ''CanonicalFactor object has no attribute covariance''),
      \<lparr>bufs = [[1, -1], [1, -1]], objs = []\<rparr>)"
  by (simp add: init_def py_len_def shape_of_def np_reshape_def np_asarray_def new_ndarray_def)

section \<open>The example of the docstring\<close>

lemma example_store_init:
  "init [''X1'', ''X2'', ''X3''] (Sequence \<lparr>shape = [3, 3], data = [1, -1, 0, -1, 4, -2, 0, -2, 4]\<rparr>)
     (Sequence \<lparr>shape = [3, 1], data = [1, 4, -1]\<rparr>) (PyNum (-2)) None \<lparr>bufs = [], objs = []\<rparr>
   = (Inr 0, example_store)"
  by (simp add: init_def py_len_def shape_of_def np_reshape_def np_asarray_def new_ndarray_def
        example_store_def)

lemma valid_example_store: "valid_object example_store 0"
  by (simp add: valid_object_def valid_factor_def valid_ndarray_def example_store_def)

text \<open>The example, evaluated: \<^verbatim>\<open>phi.reduce([('X3', 0.25)])\<close> leaves the scope
  \<open>[X1, X2]\<close>, \<open>K = [[1, -1], [-1, 4]]\<close>, \<open>h = [[1], [4.5]]\<close> and \<open>g = [[-2.375]]\<close>.\<close>

lemma reduce_example_eval:
  "reduce 0 [(''X3'', 1/4)] True example_store =
     (Inr None,
      \<lparr>bufs = [[1, 4, -1], [1, -1, 0, -1, 4, -2, 0, -2, 4], [1, -1, -1, 4], [1, 9/2], [-19/8]],
       objs = [\<lparr>variables = [''X1'', ''X2''], pdf = None,
                K = \<lparr>nd_shape = [2, 2], nd_buf = 2\<rparr>,
                h = \<lparr>nd_shape = [2, 1], nd_buf = 3\<rparr>,
                g = PyNd \<lparr>nd_shape = [1, 1], nd_buf = 4\<rparr>\<rparr>]\<rparr>)"
  by (simp add: reduce_def example_store_def py_index_def reduce_blocks_def getitem_ix_def getitem_rows_def
        observation_def new_ndarray_def array_of_def reduce_h_def reduce_g_def np_dot_def transpose_T_def
        broadcast_def py_add_def scalar_mult_def Let_def upt_conv_Cons)

section \<open>Positions in a scope of distinct variables, values in the order of the scope\<close>

lemma list_index_map_distinct:
  "distinct xs \<Longrightarrow> map (list_index xs) (filter P xs) = filter (\<lambda>i. P (xs ! i)) [0..<length xs]"
proof (induction xs)
  case Nil
  then show ?case by simp
next
  case (Cons x xs)
  have up: "[0..<length (x # xs)] = 0 # map Suc [0..<length xs]"
    by (simp add: upt_conv_Cons map_Suc_upt del: upt_Suc)
  have ih: "map (list_index xs) (filter P xs) = filter (\<lambda>i. P (xs ! i)) [0..<length xs]"
    using Cons by simp
  have "map (list_index (x # xs)) (filter P xs) = map (\<lambda>v. Suc (list_index xs v)) (filter P xs)"
    using Cons.prems by (intro map_cong) auto
  also have "\<dots> = map Suc (map (list_index xs) (filter P xs))" by simp
  also have "\<dots> = map Suc (filter (\<lambda>i. P (xs ! i)) [0..<length xs])" by (simp only: ih)
  also have "\<dots> = filter (\<lambda>i. P ((x # xs) ! i)) (map Suc [0..<length xs])"
    by (simp add: filter_map comp_def)
  finally have tl: "map (list_index (x # xs)) (filter P xs)
       = filter (\<lambda>i. P ((x # xs) ! i)) (map Suc [0..<length xs])" .
  have "map (list_index (x # xs)) (filter P (x # xs))
       = (if P x then [0] else []) @ map (list_index (x # xs)) (filter P xs)"
    by simp
  also have "\<dots> = (if P x then [0] else []) @ filter (\<lambda>i. P ((x # xs) ! i)) (map Suc [0..<length xs])"
    by (simp only: tl)
  also have "\<dots> = filter (\<lambda>i. P ((x # xs) ! i)) (0 # map Suc [0..<length xs])"
    by simp
  finally show ?case by (simp only: up)
qed

lemma kept_positions_eq:
  "distinct vars \<Longrightarrow>
   map (list_index vars) (filter (\<lambda>v. v \<notin> set (map fst values)) vars) = kept_positions vars values"
  unfolding kept_positions_def by (rule list_index_map_distinct)

lemma kept_scope:
  "map (\<lambda>i. xs ! i) (map (list_index xs) (filter P xs)) = filter P xs"
proof -
  have "map ((!) xs \<circ> list_index xs) (filter P xs) = filter P xs"
    by (rule map_idI) (simp add: nth_list_index)
  then show ?thesis by simp
qed

lemma sorted_pairs:
  "sorted_wrt (<) (map fst ps) \<Longrightarrow> sorted (ps :: (nat \<times> real) list)"
  by (induction ps) (auto simp: less_eq_prod_def)

lemma observation_in_order:
  assumes "sorted_wrt (<) (reduced_positions vars values)"
  shows "data (observation vars values r) = map snd values"
proof -
  let ?ps = "map (\<lambda>(v, x). (list_index vars v, x)) values"
  have "map fst ?ps = reduced_positions vars values"
    by (simp add: reduced_positions_def split_def)
  then have "sorted ?ps" using assms sorted_pairs by metis
  then have "sort ?ps = ?ps" by (simp add: sort_key_id_if_sorted)
  then show ?thesis by (simp add: observation_def split_def)
qed

lemma entry_observation:
  assumes "sorted_wrt (<) (reduced_positions vars values)" "b < length values"
  shows "entry (observation vars values r) b 0 = snd (values ! b)"
  using assms by (simp add: entry_def observation_in_order) (simp add: observation_def)

lemma array_eq_tabulate:
  assumes "matrix m q A" "\<And>i j. i < m \<Longrightarrow> j < q \<Longrightarrow> entry A i j = f i j"
  shows "A = tabulate2 [0..<m] [0..<q] f"
proof (rule array_eqI[OF assms(1)])
  show "matrix m q (tabulate2 [0..<m] [0..<q] f)"
    using matrix_tabulate2[of "[0..<m]" "[0..<q]" f] by simp
next
  fix i j assume "i < m" "j < q"
  then show "entry A i j = entry (tabulate2 [0..<m] [0..<q] f) i j"
    using assms(2) by (simp add: entry_tabulate2)
qed

section \<open>Reduction: the conditional canonical form\<close>

text \<open>
  Claim C1. Let the object be well formed, its scope consist of distinct variables, and
  \<open>values\<close> name variables of the scope in the order of the scope. Then \<open>reduce\<close> succeeds
  and the object it assigns to (the receiver, or the copy) holds the conditional form:
  the scope is the kept variables in their order; with \<open>keep\<close> and \<open>red\<close> the positions in
  the original scope of the kept and of the reduced variables and \<open>y\<close> the given values,
  \<open>K' = K[keep, keep]\<close>, \<open>h' = h[keep] - K[keep, red] y\<close> and
  \<open>g' = g + h[red]\<^sup>T y - 0.5 y\<^sup>T K[red, red] y\<close>, entry by entry; \<open>K'\<close> is \<open>k \<times> k\<close>, \<open>h'\<close>
  is \<open>k \<times> 1\<close> and \<open>g'\<close> is stored as a \<open>1 \<times> 1\<close> array.
\<close>

theorem reduce_conditional_form:
  fixes inplace :: bool
  assumes v: "valid_object s self"
    and d: "distinct (variables (objs s ! self))"
    and sub: "set (map fst values) \<subseteq> set (variables (objs s ! self))"
    and ord: "sorted_wrt (<) (reduced_positions (variables (objs s ! self)) values)"
  defines "f \<equiv> objs s ! self"
  defines "keep \<equiv> kept_positions (variables f) values"
  defines "red \<equiv> reduced_positions (variables f) values"
  defines "KA \<equiv> array_of s (K f)" and "hA \<equiv> array_of s (h f)"
  defines "phi \<equiv> target inplace self s"
  shows "\<exists>s' g_nd.
     reduce self values inplace s = (Inr (if inplace then None else Some phi), s') \<and>
     variables (objs s' ! phi) = filter (\<lambda>v. v \<notin> set (map fst values)) (variables f) \<and>
     variables (objs s' ! phi) = map (\<lambda>i. variables f ! i) keep \<and>
     matrix (length keep) (length keep) (array_of s' (K (objs s' ! phi))) \<and>
     (\<forall>a<length keep. \<forall>b<length keep.
         entry (array_of s' (K (objs s' ! phi))) a b = entry KA (keep ! a) (keep ! b)) \<and>
     matrix (length keep) 1 (array_of s' (h (objs s' ! phi))) \<and>
     (\<forall>a<length keep. entry (array_of s' (h (objs s' ! phi))) a 0 =
         entry hA (keep ! a) 0 - (\<Sum>b<length values. entry KA (keep ! a) (red ! b) * snd (values ! b))) \<and>
     g (objs s' ! phi) = PyNd g_nd \<and>
     matrix 1 1 (array_of s' g_nd) \<and>
     entry (array_of s' g_nd) 0 0 =
        g_value s (g f) + (\<Sum>b<length values. entry hA (red ! b) 0 * snd (values ! b))
        - 0.5 * (\<Sum>b<length values.
                   (\<Sum>a<length values. snd (values ! a) * entry KA (red ! a) (red ! b)) * snd (values ! b))"
proof -
  have k: "map (list_index (variables f)) (filter (\<lambda>v. v \<notin> set (map fst values)) (variables f)) = keep"
    unfolding keep_def using d by (intro kept_positions_eq) (simp add: f_def)
  have r: "map (list_index (variables f)) (map fst values) = red"
    by (simp add: red_def reduced_positions_def)
  have y: "\<And>b. b < length values \<Longrightarrow>
             entry (observation (variables f) values (length values)) b 0 = snd (values ! b)"
    using ord by (intro entry_observation) (simp_all add: f_def)
  have ks: "map (\<lambda>i. variables f ! i) keep = filter (\<lambda>v. v \<notin> set (map fst values)) (variables f)"
    unfolding k[symmetric] by (rule kept_scope)
  show ?thesis
    using reduce_post[OF v sub, of inplace]
    unfolding f_def[symmetric] k r KA_def[symmetric] hA_def[symmetric] phi_def[symmetric]
    by (auto simp: y ks)
qed

text \<open>
  The theorem at the example of the docstring and of the spec: reducing \<open>X3 = 0.25\<close> in the
  form over \<open>[X1, X2, X3]\<close> with \<open>K = [[1, -1, 0], [-1, 4, -2], [0, -2, 4]]\<close>,
  \<open>h = [1, 4, -1]\<close>, \<open>g = -2\<close> yields the scope \<open>[X1, X2]\<close>, \<open>K' = [[1, -1], [-1, 4]]\<close>,
  \<open>h' = [1, 4.5]\<close> and \<open>g' = -2.375\<close>.
\<close>

theorem reduce_conditional_form_example:
  "valid_object example_store 0 \<and>
   distinct (variables (objs example_store ! 0)) \<and>
   set (map fst [(''X3'', 1/4 :: real)]) \<subseteq> set (variables (objs example_store ! 0)) \<and>
   sorted_wrt (<) (reduced_positions (variables (objs example_store ! 0)) [(''X3'', 1/4)]) \<and>
   (\<exists>s' g_nd.
      reduce 0 [(''X3'', 1/4)] True example_store = (Inr None, s') \<and>
      variables (objs s' ! 0) = [''X1'', ''X2''] \<and>
      array_of s' (K (objs s' ! 0)) = \<lparr>shape = [2, 2], data = [1, -1, -1, 4]\<rparr> \<and>
      array_of s' (h (objs s' ! 0)) = \<lparr>shape = [2, 1], data = [1, 9/2]\<rparr> \<and>
      g (objs s' ! 0) = PyNd g_nd \<and>
      array_of s' g_nd = \<lparr>shape = [1, 1], data = [-19/8]\<rparr>)"
proof -
  let ?vs = "[(''X3'', 1/4 :: real)]"
  have v: "valid_object example_store 0"
    by (simp add: valid_object_def valid_factor_def valid_ndarray_def example_store_def)
  have d: "distinct (variables (objs example_store ! 0))" by (simp add: example_store_def)
  have sub: "set (map fst ?vs) \<subseteq> set (variables (objs example_store ! 0))"
    by (simp add: example_store_def)
  have ord: "sorted_wrt (<) (reduced_positions (variables (objs example_store ! 0)) ?vs)"
    by (simp add: reduced_positions_def)
  have keep: "kept_positions (variables (objs example_store ! 0)) ?vs = [0, 1]"
    by (simp add: kept_positions_def example_store_def upt_conv_Cons)
  have red: "reduced_positions (variables (objs example_store ! 0)) ?vs = [2]"
    by (simp add: reduced_positions_def example_store_def)
  let ?f = "objs example_store ! 0"
  let ?KA = "array_of example_store (K ?f)" and ?hA = "array_of example_store (h ?f)"
  let ?phi = "target True 0 example_store"
  have phi: "?phi = 0" by (simp add: target_def)
  obtain s' g_nd where
    r: "reduce 0 ?vs True example_store = (Inr (if True then None else Some ?phi), s')"
    and sc: "variables (objs s' ! ?phi) = filter (\<lambda>v. v \<notin> set (map fst ?vs)) (variables ?f)"
    and mK: "matrix (length [0, 1::nat]) (length [0, 1::nat]) (array_of s' (K (objs s' ! ?phi)))"
    and eK: "\<forall>a<length [0, 1::nat]. \<forall>b<length [0, 1::nat].
                entry (array_of s' (K (objs s' ! ?phi))) a b = entry ?KA ([0, 1] ! a) ([0, 1] ! b)"
    and mh: "matrix (length [0, 1::nat]) 1 (array_of s' (h (objs s' ! ?phi)))"
    and eh: "\<forall>a<length [0, 1::nat]. entry (array_of s' (h (objs s' ! ?phi))) a 0 =
         entry ?hA ([0, 1] ! a) 0 - (\<Sum>b<length ?vs. entry ?KA ([0, 1] ! a) ([2] ! b) * snd (?vs ! b))"
    and gg: "g (objs s' ! ?phi) = PyNd g_nd"
    and mg: "matrix 1 1 (array_of s' g_nd)"
    and eg: "entry (array_of s' g_nd) 0 0 =
        g_value example_store (g ?f) + (\<Sum>b<length ?vs. entry ?hA ([2] ! b) 0 * snd (?vs ! b))
        - 0.5 * (\<Sum>b<length ?vs.
                   (\<Sum>a<length ?vs. snd (?vs ! a) * entry ?KA ([2] ! a) ([2] ! b)) * snd (?vs ! b))"
    using reduce_conditional_form[OF v d sub ord, of True] unfolding keep red by blast
  note sc = sc[unfolded phi] and mK = mK[unfolded phi] and eK = eK[unfolded phi]
    and mh = mh[unfolded phi] and eh = eh[unfolded phi] and gg = gg[unfolded phi]
  have K': "array_of s' (K (objs s' ! 0)) = \<lparr>shape = [2, 2], data = [1, -1, -1, 4]\<rparr>"
    using array_eq_tabulate[OF mK, of "\<lambda>a b. entry ?KA ([0, 1] ! a) ([0, 1] ! b)"] eK
    by (simp add: tabulate2_def upt_conv_Cons entry_def array_of_def example_store_def)
  have h': "array_of s' (h (objs s' ! 0)) = \<lparr>shape = [2, 1], data = [1, 9/2]\<rparr>"
    using array_eq_tabulate[OF mh, of "\<lambda>a b. entry ?hA ([0, 1] ! a) 0
              - (\<Sum>b<length ?vs. entry ?KA ([0, 1] ! a) ([2] ! b) * snd (?vs ! b))"] eh
    by (simp add: tabulate2_def upt_conv_Cons entry_def array_of_def example_store_def)
  have g': "array_of s' g_nd = \<lparr>shape = [1, 1], data = [-19/8]\<rparr>"
    using array_eq_tabulate[OF mg, of "\<lambda>a b. g_value example_store (g ?f)
        + (\<Sum>b<length ?vs. entry ?hA ([2] ! b) 0 * snd (?vs ! b))
        - 0.5 * (\<Sum>b<length ?vs.
                   (\<Sum>a<length ?vs. snd (?vs ! a) * entry ?KA ([2] ! a) ([2] ! b)) * snd (?vs ! b))"] eg
    by (simp add: tabulate2_def upt_conv_Cons entry_def array_of_def example_store_def g_value_def)
  have sc': "variables (objs s' ! 0) = [''X1'', ''X2'']"
    using sc by (simp add: example_store_def)
  have r': "reduce 0 ?vs True example_store = (Inr None, s')" using r by simp
  have gg': "g (objs s' ! 0) = PyNd g_nd" using gg by simp
  show ?thesis using v d sub ord r' sc' K' h' gg' g' by blast
qed

section \<open>Reduction with no values\<close>

lemma valid_example_store_pdf: "valid_object example_store_pdf 0"
  by (simp add: valid_object_def valid_factor_def valid_ndarray_def example_store_pdf_def)

lemma kept_positions_Nil: "kept_positions vars [] = [0..<length vars]"
  by (simp add: kept_positions_def)

text \<open>
  Claim C10. On a well-formed object with a scope of distinct variables, \<open>reduce\<close> with
  the empty list succeeds; the object it assigns to has the same scope, \<open>K\<close> and \<open>h\<close>
  with the same shape and entries, and a \<open>g\<close> of the same numeric value (now held in a
  \<open>1 \<times> 1\<close> array); its density function is absent, whatever it was before.
\<close>

theorem reduce_empty_values:
  fixes inplace :: bool
  assumes v: "valid_object s self" and d: "distinct (variables (objs s ! self))"
  defines "f \<equiv> objs s ! self" and "phi \<equiv> target inplace self s"
  shows "\<exists>s'. reduce self [] inplace s = (Inr (if inplace then None else Some phi), s') \<and>
      variables (objs s' ! phi) = variables f \<and>
      array_of s' (K (objs s' ! phi)) = array_of s (K f) \<and>
      array_of s' (h (objs s' ! phi)) = array_of s (h f) \<and>
      g_value s' (g (objs s' ! phi)) = g_value s (g f) \<and>
      pdf (objs s' ! phi) = None"
proof -
  let ?n = "length (variables f)"
  have k: "map (list_index (variables f)) (filter (\<lambda>v. v \<notin> set (map fst [])) (variables f)) = [0..<?n]"
    using kept_positions_eq[of "variables f" "[]"] d by (simp add: f_def kept_positions_Nil)
  have sub: "set (map fst ([] :: (string \<times> real) list)) \<subseteq> set (variables (objs s ! self))" by simp
  note rp = reduce_post[OF v sub, of inplace, unfolded f_def[symmetric] phi_def[symmetric] k]
  from rp[simplified] obtain s' g_nd where
    r: "reduce self [] inplace s = (Inr (if inplace then None else Some phi), s')"
    and sc: "variables (objs s' ! phi) = map ((!) (variables f)) [0..<?n]"
    and p: "pdf (objs s' ! phi) = None"
    and gg: "g (objs s' ! phi) = PyNd g_nd"
    and mK: "matrix ?n ?n (array_of s' (K (objs s' ! phi)))"
    and eK: "\<forall>a<?n. \<forall>b<?n. entry (array_of s' (K (objs s' ! phi))) a b = entry (array_of s (K f)) a b"
    and mh: "matrix ?n (Suc 0) (array_of s' (h (objs s' ! phi)))"
    and eh: "\<forall>a<?n. entry (array_of s' (h (objs s' ! phi))) a 0 = entry (array_of s (h f)) a 0"
    and eg: "entry (array_of s' g_nd) 0 0 = g_value s (g f)"
    by blast
  have m0: "matrix ?n ?n (array_of s (K f))" "matrix ?n (Suc 0) (array_of s (h f))"
    using valid_object_matrices[OF v] by (simp_all add: f_def)
  have K': "array_of s' (K (objs s' ! phi)) = array_of s (K f)"
    using eK by (intro array_eqI[OF mK m0(1)]) simp
  have h': "array_of s' (h (objs s' ! phi)) = array_of s (h f)"
    using eh by (intro array_eqI[OF mh m0(2)]) simp
  have g': "g_value s' (g (objs s' ! phi)) = g_value s (g f)"
    using gg eg by (simp add: g_value_def)
  have "variables (objs s' ! phi) = variables f" using sc by (simp add: map_nth)
  then show ?thesis using r K' h' g' p by blast
qed

text \<open>The theorem at the example constructed with a density function: the reduction with
  no values keeps scope, \<open>K\<close>, \<open>h\<close> and the value \<open>-2\<close> of \<open>g\<close>, and the density is gone.\<close>

theorem reduce_empty_values_example:
  "valid_object example_store_pdf 0 \<and>
   distinct (variables (objs example_store_pdf ! 0)) \<and>
   pdf (objs example_store_pdf ! 0) = Some (Supplied_pdf 0) \<and>
   (\<exists>s'. reduce 0 [] True example_store_pdf = (Inr None, s') \<and>
      variables (objs s' ! 0) = [''X1'', ''X2'', ''X3''] \<and>
      array_of s' (K (objs s' ! 0)) = \<lparr>shape = [3, 3], data = [1, -1, 0, -1, 4, -2, 0, -2, 4]\<rparr> \<and>
      array_of s' (h (objs s' ! 0)) = \<lparr>shape = [3, 1], data = [1, 4, -1]\<rparr> \<and>
      g_value s' (g (objs s' ! 0)) = -2 \<and>
      pdf (objs s' ! 0) = None)"
proof -
  have d: "distinct (variables (objs example_store_pdf ! 0))" by (simp add: example_store_pdf_def)
  have p: "pdf (objs example_store_pdf ! 0) = Some (Supplied_pdf 0)" by (simp add: example_store_pdf_def)
  have t: "target True 0 example_store_pdf = 0" by (simp add: target_def)
  show ?thesis
    using reduce_empty_values[OF valid_example_store_pdf d, of True] valid_example_store_pdf d p
    unfolding t
    by (simp add: example_store_pdf_def array_of_def g_value_def)
qed

section \<open>The representation of g\<close>

lemma init_Inr:
  assumes "init vars K0 h0 g0 p s = (Inr a, s1)"
  shows "a = length (objs s) \<and> g (objs s1 ! a) = g0 \<and> pdf (objs s1 ! a) = p \<and>
         variables (objs s1 ! a) = vars \<and>
         nd_shape (K (objs s1 ! a)) = [length vars, length vars] \<and>
         nd_shape (h (objs s1 ! a)) = [length vars, 1]"
  using assms
  by (cases h0; cases K0)
     (auto simp: init_def py_len_def np_reshape_def np_asarray_def new_ndarray_def shape_of_def
        Let_def split_def split: sum.splits if_splits list.splits)

lemma init_valid:
  assumes "valid_array_like s0 K0" "valid_array_like s0 h0"
    and "init vars K0 h0 (PyNum x) p s0 = (Inr a, s1)"
  shows "valid_object s1 a"
  using assms
  by (cases h0; cases K0)
     (auto simp: init_def py_len_def np_reshape_def np_asarray_def new_ndarray_def shape_of_def
        valid_array_like_def valid_object_def valid_factor_def valid_ndarray_def nth_append
        Let_def split_def split: sum.splits if_splits list.splits)

lemma singleton_list: "length xs = 1 \<Longrightarrow> xs ! 0 = v \<Longrightarrow> xs = [v]"
  by (cases xs) simp_all

text \<open>
  Claim C9 says that \<open>g\<close> remains a scalar after every \<open>reduce\<close>. At the example of the
  docstring it does not: after \<^verbatim>\<open>phi.reduce([('X3', 0.25)])\<close> the attribute \<open>g\<close> is an array
  of shape \<open>(1, 1)\<close> (the docstring prints \<^verbatim>\<open>array([[-2.375]])\<close>), not the number \<open>-2.375\<close>.
\<close>

theorem reduce_g_example_not_scalar:
  "fst (reduce 0 [(''X3'', 1/4)] True example_store) = Inr None \<and>
   g (objs (snd (reduce 0 [(''X3'', 1/4)] True example_store)) ! 0)
     = PyNd \<lparr>nd_shape = [1, 1], nd_buf = 4\<rparr> \<and>
   g (objs (snd (reduce 0 [(''X3'', 1/4)] True example_store)) ! 0) \<noteq> PyNum (-19/8)"
  by (simp add: reduce_example_eval)

text \<open>
  Claim C9 as amended. An object constructed with a scalar \<open>g\<close> (from array-likes \<open>K\<close> and
  \<open>h\<close> that have as many entries as their shapes say) stores that scalar and is well
  formed. On a well-formed object, whose \<open>g\<close> is a scalar or a \<open>1 \<times> 1\<close> array, every
  \<open>reduce\<close> with values naming variables of the scope succeeds and stores in \<open>g\<close> of the
  object it assigns to not a scalar but an array of shape \<open>(1, 1)\<close> with one entry; that
  object is well formed again, so \<open>g\<close> stays a \<open>1 \<times> 1\<close> array under further reductions.
  When the values are listed in the order of the scope, the entry is
  \<open>g + h[red]\<^sup>T y - 0.5 y\<^sup>T K[red, red] y\<close>, with \<open>red\<close> the positions of the reduced variables
  and \<open>y\<close> the given values.
\<close>

theorem reduce_g_array:
  fixes inplace :: bool
  shows "(valid_array_like s0 K0 \<and> valid_array_like s0 h0 \<and>
          init vars K0 h0 (PyNum x) p s0 = (Inr a, s1) \<longrightarrow>
            g (objs s1 ! a) = PyNum x \<and> valid_object s1 a) \<and>
         (valid_object s self \<and> set (map fst values) \<subseteq> set (variables (objs s ! self)) \<longrightarrow>
          (\<exists>s' g_nd. reduce self values inplace s =
                (Inr (if inplace then None else Some (target inplace self s)), s') \<and>
              g (objs s' ! target inplace self s) = PyNd g_nd \<and>
              nd_shape g_nd = [1, 1] \<and>
              length (bufs s' ! nd_buf g_nd) = 1 \<and>
              valid_object s' (target inplace self s) \<and>
              (sorted_wrt (<) (reduced_positions (variables (objs s ! self)) values) \<longrightarrow>
                 bufs s' ! nd_buf g_nd =
                   [g_value s (g (objs s ! self))
                    + (\<Sum>b<length values.
                         entry (array_of s (h (objs s ! self)))
                           (reduced_positions (variables (objs s ! self)) values ! b) 0
                         * snd (values ! b))
                    - 0.5 * (\<Sum>b<length values.
                         (\<Sum>a<length values. snd (values ! a)
                            * entry (array_of s (K (objs s ! self)))
                                (reduced_positions (variables (objs s ! self)) values ! a)
                                (reduced_positions (variables (objs s ! self)) values ! b))
                         * snd (values ! b))])))"
proof (intro conjI impI)
  assume a: "valid_array_like s0 K0 \<and> valid_array_like s0 h0 \<and>
          init vars K0 h0 (PyNum x) p s0 = (Inr a, s1)"
  then show "g (objs s1 ! a) = PyNum x" using init_Inr by blast
  from a show "valid_object s1 a" using init_valid by blast
next
  assume a: "valid_object s self \<and> set (map fst values) \<subseteq> set (variables (objs s ! self))"
  then have v: "valid_object s self" and sub: "set (map fst values) \<subseteq> set (variables (objs s ! self))"
    by simp_all
  let ?f = "objs s ! self"
  let ?red = "reduced_positions (variables ?f) values"
  let ?y = "observation (variables ?f) values (length values)"
  let ?phi = "target inplace self s"
  have r: "map (list_index (variables ?f)) (map fst values) = ?red"
    by (simp add: reduced_positions_def)
  from reduce_post[OF v sub, of inplace, unfolded r] obtain s' g_nd where
    red: "reduce self values inplace s = (Inr (if inplace then None else Some ?phi), s')"
    and gg: "g (objs s' ! ?phi) = PyNd g_nd"
    and mg: "matrix 1 1 (array_of s' g_nd)"
    and eg: "entry (array_of s' g_nd) 0 0 =
        g_value s (g ?f) + (\<Sum>b<length values. entry (array_of s (h ?f)) (?red ! b) 0 * entry ?y b 0)
        - 0.5 * (\<Sum>b<length values. (\<Sum>a<length values. entry ?y a 0
              * entry (array_of s (K ?f)) (?red ! a) (?red ! b)) * entry ?y b 0)"
    and v': "valid_object s' ?phi"
    by blast
  have y: "\<And>b. sorted_wrt (<) ?red \<Longrightarrow> b < length values \<Longrightarrow> entry ?y b 0 = snd (values ! b)"
    by (rule entry_observation)
  have sh: "nd_shape g_nd = [1, 1]" and len: "length (bufs s' ! nd_buf g_nd) = 1"
    using mg by (simp_all add: matrix_def array_of_def)
  have e0: "entry (array_of s' g_nd) 0 0 = bufs s' ! nd_buf g_nd ! 0"
    by (simp add: entry_def array_of_def)
  have val: "sorted_wrt (<) ?red \<longrightarrow>
                 bufs s' ! nd_buf g_nd =
                   [g_value s (g ?f)
                    + (\<Sum>b<length values. entry (array_of s (h ?f)) (?red ! b) 0 * snd (values ! b))
                    - 0.5 * (\<Sum>b<length values.
                         (\<Sum>a<length values. snd (values ! a)
                            * entry (array_of s (K ?f)) (?red ! a) (?red ! b))
                         * snd (values ! b))]"
  proof
    assume ord: "sorted_wrt (<) ?red"
    show "bufs s' ! nd_buf g_nd =
                   [g_value s (g ?f)
                    + (\<Sum>b<length values. entry (array_of s (h ?f)) (?red ! b) 0 * snd (values ! b))
                    - 0.5 * (\<Sum>b<length values.
                         (\<Sum>a<length values. snd (values ! a)
                            * entry (array_of s (K ?f)) (?red ! a) (?red ! b))
                         * snd (values ! b))]"
      using eg ord by (intro singleton_list[OF len]) (simp add: e0[symmetric] y)
  qed
  show "\<exists>s' g_nd. reduce self values inplace s =
                (Inr (if inplace then None else Some (target inplace self s)), s') \<and>
              g (objs s' ! target inplace self s) = PyNd g_nd \<and>
              nd_shape g_nd = [1, 1] \<and>
              length (bufs s' ! nd_buf g_nd) = 1 \<and>
              valid_object s' (target inplace self s) \<and>
              (sorted_wrt (<) ?red \<longrightarrow>
                 bufs s' ! nd_buf g_nd =
                   [g_value s (g ?f)
                    + (\<Sum>b<length values. entry (array_of s (h ?f)) (?red ! b) 0 * snd (values ! b))
                    - 0.5 * (\<Sum>b<length values.
                         (\<Sum>a<length values. snd (values ! a)
                            * entry (array_of s (K ?f)) (?red ! a) (?red ! b))
                         * snd (values ! b))])"
    using red gg sh len v' val by blast
qed

text \<open>The amended claim at the example: \<open>g\<close> is the number \<open>-2\<close> after construction and
  the \<open>1 \<times> 1\<close> array holding \<open>-2.375\<close> after the reduction of \<open>X3 = 0.25\<close>.\<close>

theorem reduce_g_array_example:
  "valid_array_like \<lparr>bufs = [], objs = []\<rparr>
     (Sequence \<lparr>shape = [3, 3], data = [1, -1, 0, -1, 4, -2, 0, -2, 4]\<rparr>) \<and>
   valid_array_like \<lparr>bufs = [], objs = []\<rparr> (Sequence \<lparr>shape = [3, 1], data = [1, 4, -1]\<rparr>) \<and>
   init [''X1'', ''X2'', ''X3''] (Sequence \<lparr>shape = [3, 3], data = [1, -1, 0, -1, 4, -2, 0, -2, 4]\<rparr>)
     (Sequence \<lparr>shape = [3, 1], data = [1, 4, -1]\<rparr>) (PyNum (-2)) None \<lparr>bufs = [], objs = []\<rparr>
     = (Inr 0, example_store) \<and>
   g (objs example_store ! 0) = PyNum (-2) \<and>
   valid_object example_store 0 \<and>
   set (map fst [(''X3'', 1/4 :: real)]) \<subseteq> set (variables (objs example_store ! 0)) \<and>
   sorted_wrt (<) (reduced_positions (variables (objs example_store ! 0)) [(''X3'', 1/4 :: real)]) \<and>
   (\<exists>s' g_nd. reduce 0 [(''X3'', 1/4)] True example_store = (Inr None, s') \<and>
      g (objs s' ! 0) = PyNd g_nd \<and> nd_shape g_nd = [1, 1] \<and>
      bufs s' ! nd_buf g_nd = [-19/8] \<and> valid_object s' 0)"
proof -
  let ?vs = "[(''X3'', 1/4 :: real)]"
  have va: "valid_array_like \<lparr>bufs = [], objs = []\<rparr>
     (Sequence \<lparr>shape = [3, 3], data = [1, -1, 0, -1, 4, -2, 0, -2, 4]\<rparr>)"
    "valid_array_like \<lparr>bufs = [], objs = []\<rparr> (Sequence \<lparr>shape = [3, 1], data = [1, 4, -1]\<rparr>)"
    by (simp_all add: valid_array_like_def)
  have sub: "set (map fst ?vs) \<subseteq> set (variables (objs example_store ! 0))"
    by (simp add: example_store_def)
  have red: "reduced_positions (variables (objs example_store ! 0)) ?vs = [2]"
    by (simp add: reduced_positions_def example_store_def)
  have ord: "sorted_wrt (<) (reduced_positions (variables (objs example_store ! 0)) ?vs)"
    by (simp add: red)
  have t: "target True 0 example_store = 0" by (simp add: target_def)
  note thm1 = reduce_g_array[of "\<lparr>bufs = [], objs = []\<rparr>"
      "Sequence \<lparr>shape = [3, 3], data = [1, -1, 0, -1, 4, -2, 0, -2, 4]\<rparr>"
      "Sequence \<lparr>shape = [3, 1], data = [1, 4, -1]\<rparr>" "[''X1'', ''X2'', ''X3'']" "-2" None
      0 example_store example_store 0 ?vs True]
  from thm1 have g0: "g (objs example_store ! 0) = PyNum (-2)" and v: "valid_object example_store 0"
    using example_store_init va by blast+
  from thm1 v sub ord obtain s' g_nd where
    r: "reduce 0 ?vs True example_store = (Inr (if True then None else Some (target True 0 example_store)), s')"
    and gg: "g (objs s' ! target True 0 example_store) = PyNd g_nd"
    and sh: "nd_shape g_nd = [1, 1]"
    and v': "valid_object s' (target True 0 example_store)"
    and val: "bufs s' ! nd_buf g_nd =
                   [g_value example_store (g (objs example_store ! 0))
                    + (\<Sum>b<length ?vs.
                         entry (array_of example_store (h (objs example_store ! 0)))
                           (reduced_positions (variables (objs example_store ! 0)) ?vs ! b) 0
                         * snd (?vs ! b))
                    - 0.5 * (\<Sum>b<length ?vs.
                         (\<Sum>a<length ?vs. snd (?vs ! a)
                            * entry (array_of example_store (K (objs example_store ! 0)))
                                (reduced_positions (variables (objs example_store ! 0)) ?vs ! a)
                                (reduced_positions (variables (objs example_store ! 0)) ?vs ! b))
                         * snd (?vs ! b))]"
    by blast
  have val': "bufs s' ! nd_buf g_nd = [-19/8]"
    unfolding val red
    by (simp add: entry_def array_of_def example_store_def g_value_def)
  have "reduce 0 ?vs True example_store = (Inr None, s')" using r by simp
  then show ?thesis
    using va example_store_init g0 v sub ord gg sh val' v' unfolding t by blast
qed

section \<open>In place or on a copy\<close>

text \<open>
  Claim C8. Let the object \<open>f\<close> be well formed and the values name variables of its scope.
  With \<open>inplace = False\<close>, \<open>reduce\<close> returns a new object \<open>c\<close> (the next address of the store,
  so not the receiver). Every object and every buffer of the old store is unchanged, in
  particular \<open>f\<close> with its scope, its density, the contents of its \<open>K\<close> and \<open>h\<close> and the
  value of its \<open>g\<close>. The new object carries the reduced parameters: the kept variables as
  scope, no density, \<open>K' = K[keep, keep]\<close>, a \<open>k \<times> 1\<close> column \<open>h'\<close> and a \<open>1 \<times> 1\<close> array \<open>g'\<close>,
  where \<open>h' = h[keep] - K[keep, red] y\<close> and \<open>g' = g + h[red]\<^sup>T y - 0.5 y\<^sup>T K[red, red] y\<close>
  when the values are listed in the order of the scope. With \<open>inplace = True\<close>, \<open>reduce\<close>
  returns \<open>None\<close>, creates no object, changes no other object and no existing buffer, and
  the receiver itself carries the same reduced scope, \<open>K'\<close>, \<open>h'\<close>, \<open>g'\<close> and no density.
\<close>

theorem reduce_inplace_flag:
  assumes v: "valid_object s self"
    and sub: "set (map fst values) \<subseteq> set (variables (objs s ! self))"
  defines "f \<equiv> objs s ! self"
  defines "kept \<equiv> filter (\<lambda>v. v \<notin> set (map fst values)) (variables f)"
  defines "keep \<equiv> map (list_index (variables f)) kept"
  defines "red \<equiv> reduced_positions (variables f) values"
  defines "KA \<equiv> array_of s (K f)" and "hA \<equiv> array_of s (h f)"
  shows "\<exists>s1 s2 c g1 g2.
     reduce self values False s = (Inr (Some c), s1) \<and>
     c = length (objs s) \<and> c \<noteq> self \<and> length (objs s1) = Suc (length (objs s)) \<and>
     take (length (objs s)) (objs s1) = objs s \<and>
     take (length (bufs s)) (bufs s1) = bufs s \<and>
     objs s1 ! self = f \<and>
     array_of s1 (K f) = KA \<and>
     array_of s1 (h f) = hA \<and>
     g_value s1 (g f) = g_value s (g f) \<and>
     variables (objs s1 ! c) = kept \<and>
     pdf (objs s1 ! c) = None \<and>
     matrix (length kept) (length kept) (array_of s1 (K (objs s1 ! c))) \<and>
     (\<forall>a<length kept. \<forall>b<length kept.
         entry (array_of s1 (K (objs s1 ! c))) a b = entry KA (keep ! a) (keep ! b)) \<and>
     matrix (length kept) 1 (array_of s1 (h (objs s1 ! c))) \<and>
     g (objs s1 ! c) = PyNd g1 \<and>
     matrix 1 1 (array_of s1 g1) \<and>
     (sorted_wrt (<) red \<longrightarrow>
        (\<forall>a<length kept. entry (array_of s1 (h (objs s1 ! c))) a 0 =
            entry hA (keep ! a) 0 - (\<Sum>b<length values. entry KA (keep ! a) (red ! b) * snd (values ! b))) \<and>
        entry (array_of s1 g1) 0 0 =
          g_value s (g f) + (\<Sum>b<length values. entry hA (red ! b) 0 * snd (values ! b))
          - 0.5 * (\<Sum>b<length values.
                     (\<Sum>a<length values. snd (values ! a) * entry KA (red ! a) (red ! b)) * snd (values ! b))) \<and>
     reduce self values True s = (Inr None, s2) \<and>
     length (objs s2) = length (objs s) \<and>
     objs s2 = (objs s)[self := objs s2 ! self] \<and>
     take (length (bufs s)) (bufs s2) = bufs s \<and>
     variables (objs s2 ! self) = kept \<and>
     pdf (objs s2 ! self) = None \<and>
     array_of s2 (K (objs s2 ! self)) = array_of s1 (K (objs s1 ! c)) \<and>
     array_of s2 (h (objs s2 ! self)) = array_of s1 (h (objs s1 ! c)) \<and>
     g (objs s2 ! self) = PyNd g2 \<and>
     array_of s2 g2 = array_of s1 g1"
proof -
  let ?kept = "map (\<lambda>i. variables f ! i) keep"
  let ?L = "length (bufs s)"
  let ?y = "observation (variables f) values (length values)"
  have r: "map (list_index (variables f)) (map fst values) = red"
    by (simp add: red_def reduced_positions_def)
  have ks: "?kept = kept" unfolding keep_def kept_def by (rule kept_scope)
  have lk: "length keep = length kept" by (simp add: keep_def)
  obtain Kn hn gn :: array where
    mK: "matrix (length keep) (length keep) Kn"
    and eK: "\<forall>a<length keep. \<forall>b<length keep. entry Kn a b = entry KA (keep ! a) (keep ! b)"
    and mh: "matrix (length keep) 1 hn"
    and eh: "\<forall>a<length keep. entry hn a 0 =
         entry hA (keep ! a) 0 - (\<Sum>b<length values. entry KA (keep ! a) (red ! b) * entry ?y b 0)"
    and mg: "matrix 1 1 gn"
    and eg: "entry gn 0 0 = g_value s (g f) + (\<Sum>b<length values. entry hA (red ! b) 0 * entry ?y b 0)
        - 0.5 * (\<Sum>b<length values. (\<Sum>a<length values. entry ?y a 0 * entry KA (red ! a) (red ! b)) * entry ?y b 0)"
    and r1: "reduce self values True s =
       (Inr None,
        s\<lparr>bufs := bufs s @ [data Kn, data hn, data gn],
          objs := (objs s)[self := reduced_object f ?kept (length keep) ?L]\<rparr>)"
    and r2: "reduce self values False s =
       (Inr (Some (length (objs s))),
        s\<lparr>bufs := bufs s @ [data KA, data hA, data Kn, data hn, data gn],
          objs := objs s @ [reduced_object f ?kept (length keep) (Suc (Suc ?L))]\<rparr>)"
    using reduce_result[OF v sub]
    unfolding f_def[symmetric] kept_def[symmetric] keep_def[symmetric] r
      KA_def[symmetric] hA_def[symmetric]
    by blast
  have self: "self < length (objs s)" using v by (simp add: valid_object_def)
  have b: "nd_buf (K f) < ?L" "nd_buf (h f) < ?L"
    "case g f of PyNum x \<Rightarrow> True | PyNd a \<Rightarrow> nd_buf a < ?L"
    using v by (auto simp: valid_object_def valid_factor_def valid_ndarray_def f_def split: pyval.splits)
  have gv: "g_value (s\<lparr>bufs := bufs s @ [data KA, data hA, data Kn, data hn, data gn],
          objs := objs s @ [reduced_object f ?kept (length keep) (Suc (Suc ?L))]\<rparr>) (g f) = g_value s (g f)"
    using b(3) by (cases "g f") (simp_all add: g_value_def array_of_def nth_append entry_def)
  have arr: "\<And>A sh. shape A = sh \<Longrightarrow> \<lparr>shape = sh, data = data A\<rparr> = A" by auto
  have shp: "shape Kn = [length keep, length keep]" "shape hn = [length keep, 1]" "shape gn = [1, 1]"
    using mK mh mg by (simp_all add: matrix_def)
  have y: "\<And>b. sorted_wrt (<) red \<Longrightarrow> b < length values \<Longrightarrow> entry ?y b 0 = snd (values ! b)"
    unfolding red_def by (rule entry_observation)
  have hord: "sorted_wrt (<) red \<longrightarrow>
        (\<forall>a<length kept. entry hn a 0 =
            entry hA (keep ! a) 0 - (\<Sum>b<length values. entry KA (keep ! a) (red ! b) * snd (values ! b)))"
    using eh by (simp add: y lk)
  have gord: "sorted_wrt (<) red \<longrightarrow>
        entry gn 0 0 =
          g_value s (g f) + (\<Sum>b<length values. entry hA (red ! b) 0 * snd (values ! b))
          - 0.5 * (\<Sum>b<length values.
                     (\<Sum>a<length values. snd (values ! a) * entry KA (red ! a) (red ! b)) * snd (values ! b))"
    using eg by (simp add: y)
  have KAe: "\<lparr>shape = nd_shape (K f), data = bufs s ! nd_buf (K f)\<rparr> = KA"
    and hAe: "\<lparr>shape = nd_shape (h f), data = bufs s ! nd_buf (h f)\<rparr> = hA"
    by (simp_all add: KA_def hA_def array_of_def)
  note mK' = mK[unfolded lk] and eK' = eK[unfolded lk] and mh' = mh[unfolded lk]
  show ?thesis
    apply (rule exI[of _ "s\<lparr>bufs := bufs s @ [data KA, data hA, data Kn, data hn, data gn],
          objs := objs s @ [reduced_object f ?kept (length keep) (Suc (Suc ?L))]\<rparr>"])
    apply (rule exI[of _ "s\<lparr>bufs := bufs s @ [data Kn, data hn, data gn],
          objs := (objs s)[self := reduced_object f ?kept (length keep) ?L]\<rparr>"])
    apply (rule exI[of _ "length (objs s)"])
    apply (rule exI[of _ "\<lparr>nd_shape = [1, 1], nd_buf = Suc (Suc (Suc (Suc ?L)))\<rparr>"])
    apply (rule exI[of _ "\<lparr>nd_shape = [1, 1], nd_buf = Suc (Suc ?L)\<rparr>"])
    using r1 r2 self b(1,2) gv mK' eK' mh' mg hord gord shp
    by (simp add: f_def[symmetric] ks lk KAe hAe
          reduced_object_def array_of_def nth_append arr)
qed

text \<open>The theorem at the example of the docstring, reducing \<open>X3 = 0.25\<close>: the new object
  and, in place, the receiver hold the scope \<open>[X1, X2]\<close>, \<open>K' = [[1, -1], [-1, 4]]\<close>,
  \<open>h' = [1, 4.5]\<close> and \<open>g' = [[-2.375]]\<close>.\<close>

theorem reduce_inplace_flag_example:
  "valid_object example_store 0 \<and>
   set (map fst [(''X3'', 1/4 :: real)]) \<subseteq> set (variables (objs example_store ! 0)) \<and>
   sorted_wrt (<) (reduced_positions (variables (objs example_store ! 0)) [(''X3'', 1/4 :: real)]) \<and>
   (\<exists>s1 s2 g1 g2.
     reduce 0 [(''X3'', 1/4)] False example_store = (Inr (Some 1), s1) \<and>
     length (objs s1) = 2 \<and>
     objs s1 ! 0 = objs example_store ! 0 \<and>
     take (length (bufs example_store)) (bufs s1) = bufs example_store \<and>
     variables (objs s1 ! 1) = [''X1'', ''X2''] \<and>
     pdf (objs s1 ! 1) = None \<and>
     array_of s1 (K (objs s1 ! 1)) = \<lparr>shape = [2, 2], data = [1, -1, -1, 4]\<rparr> \<and>
     array_of s1 (h (objs s1 ! 1)) = \<lparr>shape = [2, 1], data = [1, 9/2]\<rparr> \<and>
     g (objs s1 ! 1) = PyNd g1 \<and>
     array_of s1 g1 = \<lparr>shape = [1, 1], data = [-19/8]\<rparr> \<and>
     reduce 0 [(''X3'', 1/4)] True example_store = (Inr None, s2) \<and>
     length (objs s2) = 1 \<and>
     variables (objs s2 ! 0) = [''X1'', ''X2''] \<and>
     pdf (objs s2 ! 0) = None \<and>
     array_of s2 (K (objs s2 ! 0)) = \<lparr>shape = [2, 2], data = [1, -1, -1, 4]\<rparr> \<and>
     array_of s2 (h (objs s2 ! 0)) = \<lparr>shape = [2, 1], data = [1, 9/2]\<rparr> \<and>
     g (objs s2 ! 0) = PyNd g2 \<and>
     array_of s2 g2 = \<lparr>shape = [1, 1], data = [-19/8]\<rparr>)"
proof -
  let ?vs = "[(''X3'', 1/4 :: real)]"
  let ?f = "objs example_store ! 0"
  let ?KA = "array_of example_store (K ?f)" and ?hA = "array_of example_store (h ?f)"
  have sub: "set (map fst ?vs) \<subseteq> set (variables ?f)"
    by (simp add: example_store_def)
  have red: "reduced_positions (variables ?f) ?vs = [2]"
    by (simp add: reduced_positions_def example_store_def)
  have ord: "sorted_wrt (<) (reduced_positions (variables ?f) ?vs)"
    by (simp add: red)
  have kept: "filter (\<lambda>v. v \<notin> set (map fst ?vs)) (variables ?f) = [''X1'', ''X2'']"
    by (simp add: example_store_def)
  have keep: "map (list_index (variables ?f)) [''X1'', ''X2''] = [0, 1]"
    by (simp add: example_store_def)
  have lo: "length (objs example_store) = 1" by (simp add: example_store_def)
  from reduce_inplace_flag[OF valid_example_store sub, unfolded kept keep red lo] ord[unfolded red]
  obtain s1 s2 g1 g2 where
    r2: "reduce 0 ?vs False example_store = (Inr (Some 1), s1)"
    and l1: "length (objs s1) = Suc 1"
    and o1: "objs s1 ! 0 = ?f"
    and b1: "take (length (bufs example_store)) (bufs s1) = bufs example_store"
    and sc: "variables (objs s1 ! 1) = [''X1'', ''X2'']"
    and p1: "pdf (objs s1 ! 1) = None"
    and mK: "matrix (length [''X1'', ''X2'']) (length [''X1'', ''X2'']) (array_of s1 (K (objs s1 ! 1)))"
    and eK: "\<forall>a<length [''X1'', ''X2'']. \<forall>b<length [''X1'', ''X2''].
                entry (array_of s1 (K (objs s1 ! 1))) a b = entry ?KA ([0, 1] ! a) ([0, 1] ! b)"
    and mh: "matrix (length [''X1'', ''X2'']) 1 (array_of s1 (h (objs s1 ! 1)))"
    and gg: "g (objs s1 ! 1) = PyNd g1"
    and mg: "matrix 1 1 (array_of s1 g1)"
    and eh: "\<forall>a<length [''X1'', ''X2'']. entry (array_of s1 (h (objs s1 ! 1))) a 0 =
         entry ?hA ([0, 1] ! a) 0 - (\<Sum>b<length ?vs. entry ?KA ([0, 1] ! a) ([2] ! b) * snd (?vs ! b))"
    and eg: "entry (array_of s1 g1) 0 0 =
        g_value example_store (g ?f) + (\<Sum>b<length ?vs. entry ?hA ([2] ! b) 0 * snd (?vs ! b))
        - 0.5 * (\<Sum>b<length ?vs.
                   (\<Sum>a<length ?vs. snd (?vs ! a) * entry ?KA ([2] ! a) ([2] ! b)) * snd (?vs ! b))"
    and r1: "reduce 0 ?vs True example_store = (Inr None, s2)"
    and l2: "length (objs s2) = 1"
    and sc2: "variables (objs s2 ! 0) = [''X1'', ''X2'']"
    and p2: "pdf (objs s2 ! 0) = None"
    and K2: "array_of s2 (K (objs s2 ! 0)) = array_of s1 (K (objs s1 ! 1))"
    and h2: "array_of s2 (h (objs s2 ! 0)) = array_of s1 (h (objs s1 ! 1))"
    and gg2: "g (objs s2 ! 0) = PyNd g2"
    and g2: "array_of s2 g2 = array_of s1 g1"
    by blast
  have K': "array_of s1 (K (objs s1 ! 1)) = \<lparr>shape = [2, 2], data = [1, -1, -1, 4]\<rparr>"
    using array_eq_tabulate[OF mK, of "\<lambda>a b. entry ?KA ([0, 1] ! a) ([0, 1] ! b)"] eK
    by (simp add: tabulate2_def upt_conv_Cons entry_def array_of_def example_store_def)
  have h': "array_of s1 (h (objs s1 ! 1)) = \<lparr>shape = [2, 1], data = [1, 9/2]\<rparr>"
    using array_eq_tabulate[OF mh, of "\<lambda>a b. entry ?hA ([0, 1] ! a) 0
              - (\<Sum>b<length ?vs. entry ?KA ([0, 1] ! a) ([2] ! b) * snd (?vs ! b))"] eh
    by (simp add: tabulate2_def upt_conv_Cons entry_def array_of_def example_store_def)
  have g': "array_of s1 g1 = \<lparr>shape = [1, 1], data = [-19/8]\<rparr>"
    using array_eq_tabulate[OF mg, of "\<lambda>a b. g_value example_store (g ?f)
        + (\<Sum>b<length ?vs. entry ?hA ([2] ! b) 0 * snd (?vs ! b))
        - 0.5 * (\<Sum>b<length ?vs.
                   (\<Sum>a<length ?vs. snd (?vs ! a) * entry ?KA ([2] ! a) ([2] ! b)) * snd (?vs ! b))"] eg
    by (simp add: tabulate2_def upt_conv_Cons entry_def array_of_def example_store_def g_value_def)
  have l1': "length (objs s1) = 2" using l1 by simp
  show ?thesis
    using valid_example_store sub ord r2 l1' o1 b1 sc p1 K' h' gg g' r1 l2 sc2 p2
      K2[unfolded K'] h2[unfolded h'] gg2 g2[unfolded g']
    by blast
qed

section \<open>copy\<close>

text \<open>
  Claim C5. The copy of a well-formed object is a new object \<open>c\<close>; the receiver is
  unchanged. The copy has the scope, the \<open>g\<close> and the density function of the receiver
  (the same values and references), and \<open>K\<close> and \<open>h\<close> with the receiver's shape and
  entries in two fresh buffers, different from each other and from every buffer of the
  old store: writing any entry of the copy's \<open>K\<close> or \<open>h\<close> leaves the receiver's \<open>K\<close> and
  \<open>h\<close> as they were.
\<close>

theorem copy_independent:
  assumes v: "valid_object s self"
  defines "f \<equiv> objs s ! self"
  shows "\<exists>c s'.
     copy self s = (Inr c, s') \<and> c = length (objs s) \<and> c \<noteq> self \<and>
     objs s' ! self = f \<and>
     variables (objs s' ! c) = variables f \<and>
     g (objs s' ! c) = g f \<and>
     pdf (objs s' ! c) = pdf f \<and>
     array_of s' (K (objs s' ! c)) = array_of s (K f) \<and>
     array_of s' (h (objs s' ! c)) = array_of s (h f) \<and>
     array_of s' (K f) = array_of s (K f) \<and>
     array_of s' (h f) = array_of s (h f) \<and>
     nd_buf (K (objs s' ! c)) \<notin> {nd_buf (K f), nd_buf (h f)} \<and>
     nd_buf (h (objs s' ! c)) \<notin> {nd_buf (K f), nd_buf (h f)} \<and>
     nd_buf (K (objs s' ! c)) \<noteq> nd_buf (h (objs s' ! c)) \<and>
     length (bufs s) \<le> nd_buf (K (objs s' ! c)) \<and> length (bufs s) \<le> nd_buf (h (objs s' ! c)) \<and>
     (\<forall>i x. array_of (setitem (K (objs s' ! c)) i x s') (K f) = array_of s (K f) \<and>
            array_of (setitem (K (objs s' ! c)) i x s') (h f) = array_of s (h f) \<and>
            array_of (setitem (h (objs s' ! c)) i x s') (K f) = array_of s (K f) \<and>
            array_of (setitem (h (objs s' ! c)) i x s') (h f) = array_of s (h f))"
proof -
  have self: "self < length (objs s)" using v by (simp add: valid_object_def)
  have b: "nd_buf (K f) < length (bufs s)" "nd_buf (h f) < length (bufs s)"
    using v by (simp_all add: valid_object_def valid_factor_def valid_ndarray_def f_def)
  show ?thesis
    using copy_valid[OF v] self b
    by (simp add: f_def[symmetric] array_of_def setitem_def nth_append)
qed

text \<open>The theorem at the example constructed with a density function: the copy shares
  the density, and a write into the copy's \<open>K\<close> or \<open>h\<close> does not reach the original.\<close>

theorem copy_independent_example:
  "valid_object example_store_pdf 0 \<and>
   (\<exists>c s'.
     copy 0 example_store_pdf = (Inr c, s') \<and> c = 1 \<and>
     objs s' ! 0 = objs example_store_pdf ! 0 \<and>
     variables (objs s' ! c) = [''X1'', ''X2'', ''X3''] \<and>
     g (objs s' ! c) = PyNum (-2) \<and>
     pdf (objs s' ! c) = Some (Supplied_pdf 0) \<and>
     array_of s' (K (objs s' ! c)) = \<lparr>shape = [3, 3], data = [1, -1, 0, -1, 4, -2, 0, -2, 4]\<rparr> \<and>
     array_of s' (h (objs s' ! c)) = \<lparr>shape = [3, 1], data = [1, 4, -1]\<rparr> \<and>
     array_of (setitem (K (objs s' ! c)) 0 7 s') (K (objs example_store_pdf ! 0))
        = \<lparr>shape = [3, 3], data = [1, -1, 0, -1, 4, -2, 0, -2, 4]\<rparr> \<and>
     array_of (setitem (h (objs s' ! c)) 0 7 s') (h (objs example_store_pdf ! 0))
        = \<lparr>shape = [3, 1], data = [1, 4, -1]\<rparr>)"
  using copy_independent[OF valid_example_store_pdf] valid_example_store_pdf
  by (auto simp: example_store_pdf_def array_of_def)

section \<open>The order of the values\<close>

text \<open>
  The code sorts the observation vector \<open>y\<close> by the position of the variables in the
  scope, but builds \<open>index_to_reduce\<close>, which selects the rows and columns of \<open>K\<close> and \<open>h\<close>
  that meet \<open>y\<close>, in the order of \<open>values\<close>. When \<open>values\<close> is not in the order of the scope
  the two no longer correspond.
\<close>

lemmas reduce_eval_defs =
  reduce_def py_index_def reduce_blocks_def getitem_ix_def getitem_rows_def
  observation_def new_ndarray_def array_of_def reduce_h_def reduce_g_def np_dot_def transpose_T_def
  broadcast_def py_add_def scalar_mult_def Let_def upt_conv_Cons

text \<open>
  Claim C2, at the example of the docstring with \<open>X1 = 0\<close> and \<open>X3 = 1\<close>: given in the order
  of the scope the reduction leaves \<open>h' = [[6]]\<close> and \<open>g' = [[-5]]\<close>; given in the other
  order it leaves \<open>h' = [[5]]\<close> and \<open>g' = [[-1.5]]\<close>. The result depends on the order.
\<close>

theorem reduce_order_dependent:
  "reduce 0 [(''X1'', 0), (''X3'', 1)] True example_store =
     (Inr None,
      \<lparr>bufs = [[1, 4, -1], [1, -1, 0, -1, 4, -2, 0, -2, 4], [4], [6], [-5]],
       objs = [\<lparr>variables = [''X2''], pdf = None,
                K = \<lparr>nd_shape = [1, 1], nd_buf = 2\<rparr>,
                h = \<lparr>nd_shape = [1, 1], nd_buf = 3\<rparr>,
                g = PyNd \<lparr>nd_shape = [1, 1], nd_buf = 4\<rparr>\<rparr>]\<rparr>) \<and>
   reduce 0 [(''X3'', 1), (''X1'', 0)] True example_store =
     (Inr None,
      \<lparr>bufs = [[1, 4, -1], [1, -1, 0, -1, 4, -2, 0, -2, 4], [4], [5], [-3/2]],
       objs = [\<lparr>variables = [''X2''], pdf = None,
                K = \<lparr>nd_shape = [1, 1], nd_buf = 2\<rparr>,
                h = \<lparr>nd_shape = [1, 1], nd_buf = 3\<rparr>,
                g = PyNd \<lparr>nd_shape = [1, 1], nd_buf = 4\<rparr>\<rparr>]\<rparr>)"
  by (simp add: reduce_eval_defs example_store_def)

section \<open>Reducing every variable\<close>

text \<open>When the values are listed in the order of the scope, reducing every variable
  leaves the empty scope, a \<open>0 \<times> 0\<close> array \<open>K\<close>, a \<open>0 \<times> 1\<close> array \<open>h\<close> and
  \<open>g' = g + h\<^sup>T y - 0.5 y\<^sup>T K y\<close>.\<close>

lemma list_index_self: "distinct xs \<Longrightarrow> map (list_index xs) xs = [0..<length xs]"
  using list_index_map_distinct[of xs "\<lambda>x. True"] by simp

lemma reduce_all_in_order:
  fixes inplace :: bool
  assumes v: "valid_object s self"
    and d: "distinct (variables (objs s ! self))"
    and all: "map fst values = variables (objs s ! self)"
  defines "f \<equiv> objs s ! self"
  defines "phi \<equiv> target inplace self s"
  defines "n \<equiv> length (variables f)"
  shows "\<exists>s' g_nd.
     reduce self values inplace s = (Inr (if inplace then None else Some phi), s') \<and>
     variables (objs s' ! phi) = [] \<and>
     array_of s' (K (objs s' ! phi)) = \<lparr>shape = [0, 0], data = []\<rparr> \<and>
     array_of s' (h (objs s' ! phi)) = \<lparr>shape = [0, 1], data = []\<rparr> \<and>
     g (objs s' ! phi) = PyNd g_nd \<and>
     matrix 1 1 (array_of s' g_nd) \<and>
     entry (array_of s' g_nd) 0 0 =
        g_value s (g f) + (\<Sum>b<n. entry (array_of s (h f)) b 0 * snd (values ! b))
        - 0.5 * (\<Sum>b<n. (\<Sum>a<n. snd (values ! a) * entry (array_of s (K f)) a b) * snd (values ! b))"
proof -
  have sub: "set (map fst values) \<subseteq> set (variables (objs s ! self))" using all by simp
  have len: "length values = n" using all unfolding n_def f_def by (metis length_map)
  have k: "map (list_index (variables f)) (filter (\<lambda>v. v \<notin> set (map fst values)) (variables f)) = []"
    using all by (simp add: f_def)
  have r: "map (list_index (variables f)) (map fst values) = [0..<n]"
    using all d list_index_self[of "variables f"] by (simp add: f_def n_def)
  have ord: "sorted_wrt (<) (reduced_positions (variables f) values)"
    using r by (simp add: reduced_positions_def comp_def sorted_wrt_upt[of 0 n, unfolded r[symmetric]])
  have y: "\<And>b. b < n \<Longrightarrow> entry (observation (variables f) values n) b 0 = snd (values ! b)"
    using ord len by (intro entry_observation) simp_all
  note rp = reduce_post[OF v sub, of inplace, unfolded f_def[symmetric] phi_def[symmetric] k r len]
  from rp[simplified] obtain s' g_nd where
    r1: "reduce self values inplace s = (Inr (if inplace then None else Some phi), s')"
    and sc: "variables (objs s' ! phi) = []"
    and gg: "g (objs s' ! phi) = PyNd g_nd"
    and mK: "matrix 0 0 (array_of s' (K (objs s' ! phi)))"
    and mh: "matrix 0 (Suc 0) (array_of s' (h (objs s' ! phi)))"
    and mg: "matrix (Suc 0) (Suc 0) (array_of s' g_nd)"
    and eg: "entry (array_of s' g_nd) 0 0 =
        g_value s (g f) + (\<Sum>b<n. entry (array_of s (h f)) b 0 * entry (observation (variables f) values n) b 0)
        - (\<Sum>b<n. (\<Sum>a<n. entry (observation (variables f) values n) a 0 * entry (array_of s (K f)) a b)
                    * entry (observation (variables f) values n) b 0) / 2"
    by blast
  have K': "array_of s' (K (objs s' ! phi)) = \<lparr>shape = [0, 0], data = []\<rparr>"
    using mK by (simp add: matrix_def array_of_def)
  have h': "array_of s' (h (objs s' ! phi)) = \<lparr>shape = [0, 1], data = []\<rparr>"
    using mh by (simp add: matrix_def array_of_def)
  have eg': "entry (array_of s' g_nd) 0 0 =
        g_value s (g f) + (\<Sum>b<n. entry (array_of s (h f)) b 0 * snd (values ! b))
        - 0.5 * (\<Sum>b<n. (\<Sum>a<n. snd (values ! a) * entry (array_of s (K f)) a b) * snd (values ! b))"
    using eg by (simp add: y)
  show ?thesis using r1 sc K' h' gg mg eg' by auto
qed

text \<open>
  Claim C6, at the example of the docstring reduced on \<open>X3 = 1, X2 = 0, X1 = 0\<close>, in this
  order: the reduction succeeds and leaves the empty scope, a \<open>0 \<times> 0\<close> array \<open>K\<close> and an
  empty \<open>h\<close>, but \<open>g' = [[-1.5]]\<close>, whereas \<open>g + h\<^sup>T y - 0.5 y\<^sup>T K y\<close> at the observation
  \<open>y = (0, 0, 1)\<close> is \<open>-5\<close>.
\<close>

theorem reduce_all_permuted:
  "reduce 0 [(''X3'', 1), (''X2'', 0), (''X1'', 0)] True example_store =
     (Inr None,
      \<lparr>bufs = [[1, 4, -1], [1, -1, 0, -1, 4, -2, 0, -2, 4], [], [], [-3/2]],
       objs = [\<lparr>variables = [], pdf = None,
                K = \<lparr>nd_shape = [0, 0], nd_buf = 2\<rparr>,
                h = \<lparr>nd_shape = [0, 1], nd_buf = 3\<rparr>,
                g = PyNd \<lparr>nd_shape = [1, 1], nd_buf = 4\<rparr>\<rparr>]\<rparr>) \<and>
   g_value example_store (g (objs example_store ! 0))
     + (\<Sum>i<3. entry (array_of example_store (h (objs example_store ! 0))) i 0 * [0, 0, 1] ! i)
     - 0.5 * (\<Sum>j<3. (\<Sum>i<3. [0, 0, 1] ! i
                 * entry (array_of example_store (K (objs example_store ! 0))) i j) * [0, 0, 1] ! j)
     = -5"
  by (simp add: reduce_eval_defs example_store_def g_value_def entry_def lessThan_Suc numeral_3_eq_3)

section \<open>Conversion to the moment form\<close>

lemma to_joint_gaussian_returns:
  assumes v: "valid_object s self"
    and inv: "linalg_inv (array_of s (K (objs s ! self))) = Inr C"
    and mC: "matrix (length (variables (objs s ! self))) (length (variables (objs s ! self))) C"
  defines "f \<equiv> objs s ! self"
  defines "n \<equiv> length (variables f)"
  shows "\<exists>m. matrix n 1 m \<and>
           (\<forall>i<n. entry m i 0 = (\<Sum>k<n. entry C i k * entry (array_of s (h f)) k 0)) \<and>
           to_joint_gaussian linalg_inv self s =
             (Inr \<lparr>variables = variables f,
                   pdf = Some (Gaussian_pdf \<lparr>nd_shape = [n, 1], nd_buf = Suc (length (bufs s))\<rparr>
                                            \<lparr>nd_shape = [n, n], nd_buf = length (bufs s)\<rparr>),
                   mean = \<lparr>nd_shape = [n, 1], nd_buf = Suc (length (bufs s))\<rparr>,
                   covariance = \<lparr>nd_shape = [n, n], nd_buf = length (bufs s)\<rparr>\<rparr>,
              s\<lparr>bufs := bufs s @ [data C, data m]\<rparr>)"
proof -
  have mC: "matrix n n C" using mC by (simp add: n_def f_def)
  have mh: "matrix n 1 (array_of s (h f))"
    using valid_object_matrices[OF v] by (simp_all add: f_def n_def)
  let ?m = "tabulate2 [0..<n] [0..<1] (\<lambda>i j. \<Sum>k<n. entry C i k * entry (array_of s (h f)) k j)"
  have d: "np_dot C (array_of s (h f)) = Inr ?m" using mC mh by (rule np_dot_matrix)
  have mm: "matrix n 1 ?m" using matrix_tabulate2[of "[0..<n]" "[0..<1]"] by simp
  have em: "\<forall>i<n. entry ?m i 0 = (\<Sum>k<n. entry C i k * entry (array_of s (h f)) k 0)"
    by (simp add: entry_tabulate2)
  have bh: "nd_buf (h f) < length (bufs s)"
    using v by (simp add: valid_object_def valid_factor_def valid_ndarray_def f_def)
  have ah: "array_of (s\<lparr>bufs := bufs s @ [data C]\<rparr>) (h f) = array_of s (h f)"
    using bh by (simp add: array_of_def nth_append)
  have shC: "shape C = [n, n]" using mC by (simp add: matrix_def)
  have "to_joint_gaussian linalg_inv self s =
             (Inr \<lparr>variables = variables f,
                   pdf = Some (Gaussian_pdf \<lparr>nd_shape = [n, 1], nd_buf = Suc (length (bufs s))\<rparr>
                                            \<lparr>nd_shape = [n, n], nd_buf = length (bufs s)\<rparr>),
                   mean = \<lparr>nd_shape = [n, 1], nd_buf = Suc (length (bufs s))\<rparr>,
                   covariance = \<lparr>nd_shape = [n, n], nd_buf = length (bufs s)\<rparr>\<rparr>,
              s\<lparr>bufs := bufs s @ [data C, data ?m]\<rparr>)"
    unfolding to_joint_gaussian_def
    using inv d shC
    by (simp add: f_def[symmetric] Let_def new_ndarray_def ah JointGaussianDistribution_init_def
          shape_tabulate2)
  then show ?thesis using mm em by blast
qed

lemma to_joint_gaussian_raises:
  assumes "linalg_inv (array_of s (K (objs s ! self))) = Inl e"
  shows "to_joint_gaussian linalg_inv self s = (Inl e, s)"
  unfolding to_joint_gaussian_def using assms by simp

lemmas fl64_eval = fl64_def scale_down.simps scale_up.simps round_even_def pow2_def

lemmas lapack_eval = lapack_inv_def augmented_def lu_step_def pivot_row_def eliminate_def
  multiplier_def back_step_def upt_conv_Cons Let_def

lemma gaussian_store_init:
  "init [''x1'', ''x2''] (Sequence \<lparr>shape = [2, 2], data = [4, 2, 2, 2]\<rparr>)
     (Sequence \<lparr>shape = [2, 1], data = [6, 2]\<rparr>) (PyNum 1) None \<lparr>bufs = [], objs = []\<rparr>
   = (Inr 0, gaussian_store)"
  by (simp add: init_def py_len_def shape_of_def np_reshape_def np_asarray_def new_ndarray_def
        gaussian_store_def)

lemma singular_store_init:
  "init [''X'', ''Y''] (Sequence \<lparr>shape = [2, 2], data = [1, -1, -1, 1]\<rparr>)
     (Sequence \<lparr>shape = [2, 1], data = [1, -1]\<rparr>) (PyNum (-3)) None \<lparr>bufs = [], objs = []\<rparr>
   = (Inr 0, singular_store)"
  by (simp add: init_def py_len_def shape_of_def np_reshape_def np_asarray_def new_ndarray_def
        singular_store_def)

lemma rank_one_store_init:
  "init [''X'', ''Y''] (Sequence \<lparr>shape = [2, 2], data = [11, 33, 33, 99]\<rparr>)
     (Sequence \<lparr>shape = [2, 1], data = [1, 1]\<rparr>) (PyNum 0) None \<lparr>bufs = [], objs = []\<rparr>
   = (Inr 0, rank_one_store)"
  by (simp add: init_def py_len_def shape_of_def np_reshape_def np_asarray_def new_ndarray_def
        rank_one_store_def)

lemma near_singular_store_init:
  "init [''X'', ''Y'']
     (Sequence \<lparr>shape = [2, 2], data = [3, 1, 1, 6004799503160661 / 18014398509481984]\<rparr>)
     (Sequence \<lparr>shape = [2, 1], data = [1, 1]\<rparr>) (PyNum 0) None \<lparr>bufs = [], objs = []\<rparr>
   = (Inr 0, near_singular_store)"
  by (simp add: init_def py_len_def shape_of_def np_reshape_def np_asarray_def new_ndarray_def
        near_singular_store_def)

lemma valid_gaussian_store: "valid_object gaussian_store 0"
  by (simp add: valid_object_def valid_factor_def valid_ndarray_def gaussian_store_def)

lemma valid_singular_store: "valid_object singular_store 0"
  by (simp add: valid_object_def valid_factor_def valid_ndarray_def singular_store_def)

lemma lapack_inv_exact:
  "lapack_inv \<lparr>shape = [2, 2], data = [4, 2, 2, 2]\<rparr>
     = Inr \<lparr>shape = [2, 2], data = [1/2, -1/2, -1/2, 1]\<rparr>"
  by (simp add: lapack_eval fl64_eval)

lemma lapack_inv_zero_pivot:
  "lapack_inv \<lparr>shape = [2, 2], data = [1, -1, -1, 1]\<rparr> = Inl (LinAlgError ''Singular matrix'')"
  by (simp add: lapack_eval fl64_eval)

text \<open>
  Claim C4 says that \<open>to_joint_gaussian\<close> fails whenever \<open>K\<close> is singular and returns the
  Gaussian with covariance \<open>K\<^sup>-\<^sup>1\<close> whenever \<open>K\<close> has an inverse. Whether the code raises is
  decided by \<^verbatim>\<open>np.linalg.inv\<close> in binary64 arithmetic, not by singularity. The matrix
  \<open>K = [[11, 33], [33, 99]]\<close> maps the vector \<open>(3, -1)\<close> to \<open>0\<close>, yet the multiplier
  \<open>11 \<cdot> fl(1/33)\<close> is not a third, the second pivot is \<open>-2\<^sup>-\<^sup>4\<^sup>7\<close> and the conversion returns a
  Gaussian. The matrix \<open>K = [[3, 1], [1, 1/3]]\<close> has the inverse written out below, yet its
  second pivot \<open>1/3 - fl(1/3)\<close> is \<open>0\<close> and the conversion raises
  \<^verbatim>\<open>LinAlgError("Singular matrix")\<close>.
\<close>

theorem to_joint_gaussian_rounded_pivot:
  "np_dot (array_of rank_one_store (K (objs rank_one_store ! 0))) \<lparr>shape = [2, 1], data = [3, -1]\<rparr>
     = Inr \<lparr>shape = [2, 1], data = [0, 0]\<rparr> \<and>
   fst (to_joint_gaussian lapack_inv 0 rank_one_store) =
     Inr \<lparr>variables = [''X'', ''Y''],
          pdf = Some (Gaussian_pdf \<lparr>nd_shape = [2, 1], nd_buf = 3\<rparr> \<lparr>nd_shape = [2, 2], nd_buf = 2\<rparr>),
          mean = \<lparr>nd_shape = [2, 1], nd_buf = 3\<rparr>,
          covariance = \<lparr>nd_shape = [2, 2], nd_buf = 2\<rparr>\<rparr> \<and>
   np_dot (array_of near_singular_store (K (objs near_singular_store ! 0)))
       \<lparr>shape = [2, 2],
        data = [- 6004799503160661, 18014398509481984, 18014398509481984, - 54043195528445952]\<rparr>
     = Inr \<lparr>shape = [2, 2], data = [1, 0, 0, 1]\<rparr> \<and>
   np_dot \<lparr>shape = [2, 2],
           data = [- 6004799503160661, 18014398509481984, 18014398509481984, - 54043195528445952]\<rparr>
       (array_of near_singular_store (K (objs near_singular_store ! 0)))
     = Inr \<lparr>shape = [2, 2], data = [1, 0, 0, 1]\<rparr> \<and>
   to_joint_gaussian lapack_inv 0 near_singular_store
     = (Inl (LinAlgError ''Singular matrix''), near_singular_store)"
proof -
  have a: "np_dot (array_of rank_one_store (K (objs rank_one_store ! 0))) \<lparr>shape = [2, 1], data = [3, -1]\<rparr>
     = Inr \<lparr>shape = [2, 1], data = [0, 0]\<rparr>"
    by (simp add: rank_one_store_def array_of_def np_dot_def upt_conv_Cons)
  have b: "fst (to_joint_gaussian lapack_inv 0 rank_one_store) =
     Inr \<lparr>variables = [''X'', ''Y''],
          pdf = Some (Gaussian_pdf \<lparr>nd_shape = [2, 1], nd_buf = 3\<rparr> \<lparr>nd_shape = [2, 2], nd_buf = 2\<rparr>),
          mean = \<lparr>nd_shape = [2, 1], nd_buf = 3\<rparr>,
          covariance = \<lparr>nd_shape = [2, 2], nd_buf = 2\<rparr>\<rparr>"
    by (simp add: to_joint_gaussian_def rank_one_store_def array_of_def np_dot_def new_ndarray_def
          JointGaussianDistribution_init_def lapack_eval fl64_eval)
  have c: "np_dot (array_of near_singular_store (K (objs near_singular_store ! 0)))
       \<lparr>shape = [2, 2],
        data = [- 6004799503160661, 18014398509481984, 18014398509481984, - 54043195528445952]\<rparr>
     = Inr \<lparr>shape = [2, 2], data = [1, 0, 0, 1]\<rparr>"
    by (simp add: near_singular_store_def array_of_def np_dot_def upt_conv_Cons)
  have d: "np_dot \<lparr>shape = [2, 2],
           data = [- 6004799503160661, 18014398509481984, 18014398509481984, - 54043195528445952]\<rparr>
       (array_of near_singular_store (K (objs near_singular_store ! 0)))
     = Inr \<lparr>shape = [2, 2], data = [1, 0, 0, 1]\<rparr>"
    by (simp add: near_singular_store_def array_of_def np_dot_def upt_conv_Cons)
  have e: "to_joint_gaussian lapack_inv 0 near_singular_store
     = (Inl (LinAlgError ''Singular matrix''), near_singular_store)"
    by (simp add: to_joint_gaussian_def near_singular_store_def array_of_def lapack_eval fl64_eval)
  show ?thesis using a b c d e by simp
qed

text \<open>
  Claim C4 as amended. For a well-formed object over \<open>n\<close> variables and every inversion
  routine: when the routine returns an \<open>n \<times> n\<close> array \<open>C\<close> for \<open>K\<close>, \<open>to_joint_gaussian\<close>
  returns a moment-form Gaussian with the scope of the object, the covariance \<open>C\<close> and the
  mean \<open>C \<cdot> h\<close>, an \<open>n \<times> 1\<close> column, and it changes no object and no existing buffer; when
  the routine raises, \<open>to_joint_gaussian\<close> raises the same error and the store is as before:
  there is no fallback.
\<close>

theorem to_joint_gaussian_moment_form:
  assumes v: "valid_object s self"
  defines "f \<equiv> objs s ! self"
  defines "n \<equiv> length (variables f)"
  shows "(\<forall>C. linalg_inv (array_of s (K f)) = Inr C \<and> matrix n n C \<longrightarrow>
           (\<exists>j s'. to_joint_gaussian linalg_inv self s = (Inr j, s') \<and>
              variables j = variables f \<and>
              array_of s' (covariance j) = C \<and>
              matrix n 1 (array_of s' (mean j)) \<and>
              (\<forall>i<n. entry (array_of s' (mean j)) i 0 =
                  (\<Sum>k<n. entry C i k * entry (array_of s (h f)) k 0)) \<and>
              objs s' = objs s \<and> take (length (bufs s)) (bufs s') = bufs s)) \<and>
         (\<forall>e. linalg_inv (array_of s (K f)) = Inl e \<longrightarrow>
            to_joint_gaussian linalg_inv self s = (Inl e, s))"
proof (intro conjI allI impI)
  fix C
  assume a: "linalg_inv (array_of s (K f)) = Inr C \<and> matrix n n C"
  then have inv: "linalg_inv (array_of s (K (objs s ! self))) = Inr C"
    and mC: "matrix n n C" by (simp_all add: f_def)
  from to_joint_gaussian_returns[where linalg_inv = linalg_inv, OF v inv mC[unfolded n_def f_def], folded f_def n_def]
  obtain m :: array where
    m: "matrix n 1 m"
    and em: "\<forall>i<n. entry m i 0 = (\<Sum>k<n. entry C i k * entry (array_of s (h f)) k 0)"
    and t: "to_joint_gaussian linalg_inv self s =
             (Inr \<lparr>variables = variables f,
                   pdf = Some (Gaussian_pdf \<lparr>nd_shape = [n, 1], nd_buf = Suc (length (bufs s))\<rparr>
                                            \<lparr>nd_shape = [n, n], nd_buf = length (bufs s)\<rparr>),
                   mean = \<lparr>nd_shape = [n, 1], nd_buf = Suc (length (bufs s))\<rparr>,
                   covariance = \<lparr>nd_shape = [n, n], nd_buf = length (bufs s)\<rparr>\<rparr>,
              s\<lparr>bufs := bufs s @ [data C, data m]\<rparr>)"
    by blast
  have aC: "array_of (s\<lparr>bufs := bufs s @ [data C, data m]\<rparr>) \<lparr>nd_shape = [n, n], nd_buf = length (bufs s)\<rparr> = C"
    using mC by (simp add: array_of_def matrix_def)
  have am: "array_of (s\<lparr>bufs := bufs s @ [data C, data m]\<rparr>) \<lparr>nd_shape = [n, Suc 0], nd_buf = Suc (length (bufs s))\<rparr> = m"
    using m by (simp add: array_of_def matrix_def nth_append)
  show "\<exists>j s'. to_joint_gaussian linalg_inv self s = (Inr j, s') \<and>
              variables j = variables f \<and>
              array_of s' (covariance j) = C \<and>
              matrix n 1 (array_of s' (mean j)) \<and>
              (\<forall>i<n. entry (array_of s' (mean j)) i 0 =
                  (\<Sum>k<n. entry C i k * entry (array_of s (h f)) k 0)) \<and>
              objs s' = objs s \<and> take (length (bufs s)) (bufs s') = bufs s"
    using t m em by (simp add: aC am)
next
  fix e
  assume "linalg_inv (array_of s (K f)) = Inl e"
  then show "to_joint_gaussian linalg_inv self s = (Inl e, s)"
    by (intro to_joint_gaussian_raises) (simp add: f_def)
qed

text \<open>
  The theorem with numpy's routine at \<open>K = [[4, 2], [2, 2]]\<close>, \<open>h = [6, 2]\<close> (covariance
  \<open>[[0.5, -0.5], [-0.5, 1]]\<close>, mean \<open>[2, -1]\<close>), and at the example of the docstring of the
  constructor, \<open>K = [[1, -1], [-1, 1]]\<close>, where the routine raises.
\<close>

theorem to_joint_gaussian_moment_form_example:
  "valid_object gaussian_store 0 \<and>
   lapack_inv (array_of gaussian_store (K (objs gaussian_store ! 0)))
     = Inr \<lparr>shape = [2, 2], data = [1/2, -1/2, -1/2, 1]\<rparr> \<and>
   matrix 2 2 \<lparr>shape = [2, 2], data = [1/2, -1/2, -1/2, 1 :: real]\<rparr> \<and>
   (\<exists>j s'. to_joint_gaussian lapack_inv 0 gaussian_store = (Inr j, s') \<and>
      variables j = [''x1'', ''x2''] \<and>
      array_of s' (covariance j) = \<lparr>shape = [2, 2], data = [1/2, -1/2, -1/2, 1]\<rparr> \<and>
      array_of s' (mean j) = \<lparr>shape = [2, 1], data = [2, -1]\<rparr> \<and>
      objs s' = objs gaussian_store) \<and>
   valid_object singular_store 0 \<and>
   lapack_inv (array_of singular_store (K (objs singular_store ! 0)))
     = Inl (LinAlgError ''Singular matrix'') \<and>
   to_joint_gaussian lapack_inv 0 singular_store
     = (Inl (LinAlgError ''Singular matrix''), singular_store)"
proof -
  let ?C = "\<lparr>shape = [2, 2], data = [1/2, -1/2, -1/2, 1 :: real]\<rparr>"
  let ?f = "objs gaussian_store ! 0"
  have i1: "lapack_inv (array_of gaussian_store (K ?f)) = Inr ?C"
    using lapack_inv_exact by (simp add: gaussian_store_def array_of_def)
  have i2: "lapack_inv (array_of singular_store (K (objs singular_store ! 0)))
              = Inl (LinAlgError ''Singular matrix'')"
    using lapack_inv_zero_pivot by (simp add: singular_store_def array_of_def)
  have mC: "matrix 2 2 ?C" by (simp add: matrix_def)
  have n1: "length (variables ?f) = 2" by (simp add: gaussian_store_def)
  from to_joint_gaussian_moment_form[OF valid_gaussian_store, of lapack_inv, unfolded n1] i1 mC
  obtain j s' where
    t: "to_joint_gaussian lapack_inv 0 gaussian_store = (Inr j, s')"
    and vj: "variables j = variables ?f"
    and cov: "array_of s' (covariance j) = ?C"
    and mm: "matrix 2 1 (array_of s' (mean j))"
    and em: "\<forall>i<2. entry (array_of s' (mean j)) i 0 =
                  (\<Sum>k<2. entry ?C i k * entry (array_of gaussian_store (h ?f)) k 0)"
    and ob: "objs s' = objs gaussian_store"
    by blast
  have mean: "array_of s' (mean j) = \<lparr>shape = [2, 1], data = [2, -1]\<rparr>"
    using array_eq_tabulate[OF mm, of "\<lambda>i j. \<Sum>k<2. entry ?C i k * entry (array_of gaussian_store (h ?f)) k 0"] em
    by (simp add: tabulate2_def upt_conv_Cons entry_def array_of_def gaussian_store_def
          lessThan_Suc numeral_2_eq_2)
  have vj': "variables j = [''x1'', ''x2'']" using vj by (simp add: gaussian_store_def)
  have s: "to_joint_gaussian lapack_inv 0 singular_store
             = (Inl (LinAlgError ''Singular matrix''), singular_store)"
    using to_joint_gaussian_moment_form[OF valid_singular_store, of lapack_inv] i2 by blast
  show ?thesis
    using valid_gaussian_store i1 mC t vj' cov mean ob valid_singular_store i2 s
    by blast
qed

section \<open>The cached density function\<close>

text \<open>
  Claim C7 says that after the first call of \<open>assignment\<close> the density is bound. At the
  example of the docstring of the constructor, constructed without a density, it is not:
  \<open>K = [[1, -1], [-1, 1]]\<close> is singular, the elimination meets the pivot \<open>1 - 1 = 0\<close>, the
  inversion raises \<^verbatim>\<open>LinAlgError("Singular matrix")\<close>, \<open>assignment\<close> passes the error on and
  the object still has no density.
\<close>

theorem assignment_singular_no_density:
  "init [''X'', ''Y''] (Sequence \<lparr>shape = [2, 2], data = [1, -1, -1, 1]\<rparr>)
     (Sequence \<lparr>shape = [2, 1], data = [1, -1]\<rparr>) (PyNum (-3)) None \<lparr>bufs = [], objs = []\<rparr>
     = (Inr 0, singular_store) \<and>
   assignment lapack_inv 0 [0, 0] singular_store
     = (Inl (LinAlgError ''Singular matrix''), singular_store) \<and>
   pdf (objs (snd (assignment lapack_inv 0 [0, 0] singular_store)) ! 0) = None"
proof -
  have i2: "lapack_inv (array_of singular_store (K (objs singular_store ! 0)))
              = Inl (LinAlgError ''Singular matrix'')"
    using lapack_inv_zero_pivot by (simp add: singular_store_def array_of_def)
  have p: "pdf (objs singular_store ! 0) = None" by (simp add: singular_store_def)
  have a: "assignment lapack_inv 0 [0, 0] singular_store
     = (Inl (LinAlgError ''Singular matrix''), singular_store)"
    by (simp add: assignment_def p to_joint_gaussian_raises[where linalg_inv = lapack_inv, OF i2])
  show ?thesis using singular_store_init a p by simp
qed

text \<open>
  Claim C7 as amended. An object constructed without a density function has none. On a
  well-formed object without a density, for every inversion routine: when the routine
  returns an \<open>n \<times> n\<close> array for \<open>K\<close>, the call of \<open>assignment\<close> returns and leaves the object
  bound to the density of the moment-form Gaussian that \<open>to_joint_gaussian\<close> gives; when
  the routine raises, \<open>assignment\<close> raises the same error and the store, with the absent
  density, is as before. A \<open>reduce\<close> on a well-formed object, with values naming variables
  of its scope, leaves the object it assigns to without a density.
\<close>

theorem density_caching:
  fixes inplace :: bool
  shows "(init vars K0 h0 g0 None s0 = (Inr a, s1) \<longrightarrow> pdf (objs s1 ! a) = None) \<and>
   (valid_object s self \<and> pdf (objs s ! self) = None \<longrightarrow>
      (\<forall>C. linalg_inv (array_of s (K (objs s ! self))) = Inr C \<and>
            matrix (length (variables (objs s ! self))) (length (variables (objs s ! self))) C \<longrightarrow>
         (\<exists>j s1 x s'. to_joint_gaussian linalg_inv self s = (Inr j, s1) \<and>
            assignment linalg_inv self args s = (Inr x, s') \<and>
            pdf (objs s' ! self) = Some (Gaussian_pdf (mean j) (covariance j)) \<and>
            pdf (objs s' ! self) \<noteq> None \<and>
            array_of s' (covariance j) = C \<and>
            valid_object s' self \<and>
            variables (objs s' ! self) = variables (objs s ! self))) \<and>
      (\<forall>e. linalg_inv (array_of s (K (objs s ! self))) = Inl e \<longrightarrow>
         assignment linalg_inv self args s = (Inl e, s))) \<and>
   (valid_object s self \<and> set (map fst values) \<subseteq> set (variables (objs s ! self)) \<longrightarrow>
      (\<exists>s'. reduce self values inplace s =
               (Inr (if inplace then None else Some (target inplace self s)), s') \<and>
            pdf (objs s' ! target inplace self s) = None))"
proof (intro conjI allI impI)
  assume "init vars K0 h0 g0 None s0 = (Inr a, s1)"
  then show "pdf (objs s1 ! a) = None" using init_Inr by blast
next
  fix C
  assume a: "valid_object s self \<and> pdf (objs s ! self) = None"
    and b: "linalg_inv (array_of s (K (objs s ! self))) = Inr C \<and>
            matrix (length (variables (objs s ! self))) (length (variables (objs s ! self))) C"
  from a have v: "valid_object s self" and p: "pdf (objs s ! self) = None" by simp_all
  from b have inv: "linalg_inv (array_of s (K (objs s ! self))) = Inr C"
    and mC: "matrix (length (variables (objs s ! self))) (length (variables (objs s ! self))) C"
    by simp_all
  let ?f = "objs s ! self" and ?n = "length (variables (objs s ! self))"
  let ?L = "length (bufs s)"
  from to_joint_gaussian_returns[where linalg_inv = linalg_inv, OF v inv mC] obtain m :: array where
    t: "to_joint_gaussian linalg_inv self s =
             (Inr \<lparr>variables = variables ?f,
                   pdf = Some (Gaussian_pdf \<lparr>nd_shape = [?n, 1], nd_buf = Suc ?L\<rparr>
                                            \<lparr>nd_shape = [?n, ?n], nd_buf = ?L\<rparr>),
                   mean = \<lparr>nd_shape = [?n, 1], nd_buf = Suc ?L\<rparr>,
                   covariance = \<lparr>nd_shape = [?n, ?n], nd_buf = ?L\<rparr>\<rparr>,
              s\<lparr>bufs := bufs s @ [data C, data m]\<rparr>)"
    by blast
  have self: "self < length (objs s)" using v by (simp add: valid_object_def)
  have val: "valid_factor (s\<lparr>bufs := bufs s @ [data C, data m],
                 objs := (objs s)[self := ?f\<lparr>pdf := Some (Gaussian_pdf \<lparr>nd_shape = [?n, 1], nd_buf = Suc ?L\<rparr>
                                            \<lparr>nd_shape = [?n, ?n], nd_buf = ?L\<rparr>)\<rparr>]\<rparr>)
               (?f\<lparr>pdf := Some (Gaussian_pdf \<lparr>nd_shape = [?n, 1], nd_buf = Suc ?L\<rparr>
                                            \<lparr>nd_shape = [?n, ?n], nd_buf = ?L\<rparr>)\<rparr>)"
    using v by (auto simp: valid_object_def valid_factor_def valid_ndarray_def nth_append split: pyval.splits)
  have aC: "\<lparr>shape = [?n, ?n], data = data C\<rparr> = C"
    using mC by (simp add: matrix_def)
  show "\<exists>j s1 x s'. to_joint_gaussian linalg_inv self s = (Inr j, s1) \<and>
         assignment linalg_inv self args s = (Inr x, s') \<and>
         pdf (objs s' ! self) = Some (Gaussian_pdf (mean j) (covariance j)) \<and>
         pdf (objs s' ! self) \<noteq> None \<and>
         array_of s' (covariance j) = C \<and>
         valid_object s' self \<and>
         variables (objs s' ! self) = variables (objs s ! self)"
    using t p self val aC
    by (simp add: assignment_def ContinuousFactor_assignment_def valid_object_def array_of_def)
next
  fix e
  assume a: "valid_object s self \<and> pdf (objs s ! self) = None"
    and b: "linalg_inv (array_of s (K (objs s ! self))) = Inl e"
  show "assignment linalg_inv self args s = (Inl e, s)"
    using a by (simp add: assignment_def to_joint_gaussian_raises[where linalg_inv = linalg_inv, OF b])
next
  assume a: "valid_object s self \<and> set (map fst values) \<subseteq> set (variables (objs s ! self))"
  then have v: "valid_object s self" and sub: "set (map fst values) \<subseteq> set (variables (objs s ! self))"
    by simp_all
  from reduce_post[OF v sub, of inplace] obtain s' where
    "reduce self values inplace s = (Inr (if inplace then None else Some (target inplace self s)), s')"
    "pdf (objs s' ! target inplace self s) = None"
    by blast
  then show "\<exists>s'. reduce self values inplace s =
               (Inr (if inplace then None else Some (target inplace self s)), s') \<and>
            pdf (objs s' ! target inplace self s) = None"
    by blast
qed

text \<open>The three steps in a row with numpy's routine at \<open>K = [[4, 2], [2, 2]]\<close>:
  construction, a call of \<open>assignment\<close>, then a reduction of \<open>x2\<close>; and the call of
  \<open>assignment\<close> at the example of the docstring of the constructor, where the routine
  raises.\<close>

theorem density_caching_example:
  "init [''x1'', ''x2''] (Sequence \<lparr>shape = [2, 2], data = [4, 2, 2, 2]\<rparr>)
     (Sequence \<lparr>shape = [2, 1], data = [6, 2]\<rparr>) (PyNum 1) None \<lparr>bufs = [], objs = []\<rparr>
     = (Inr 0, gaussian_store) \<and>
   pdf (objs gaussian_store ! 0) = None \<and>
   valid_object gaussian_store 0 \<and>
   lapack_inv (array_of gaussian_store (K (objs gaussian_store ! 0)))
     = Inr \<lparr>shape = [2, 2], data = [1/2, -1/2, -1/2, 1]\<rparr> \<and>
   matrix 2 2 \<lparr>shape = [2, 2], data = [1/2, -1/2, -1/2, 1 :: real]\<rparr> \<and>
   (\<exists>x s'. assignment lapack_inv 0 [0, 0] gaussian_store = (Inr x, s') \<and>
      pdf (objs s' ! 0) = Some (Gaussian_pdf \<lparr>nd_shape = [2, 1], nd_buf = 3\<rparr> \<lparr>nd_shape = [2, 2], nd_buf = 2\<rparr>) \<and>
      array_of s' \<lparr>nd_shape = [2, 2], nd_buf = 2\<rparr> = \<lparr>shape = [2, 2], data = [1/2, -1/2, -1/2, 1]\<rparr> \<and>
      valid_object s' 0 \<and>
      set (map fst [(''x2'', 1 :: real)]) \<subseteq> set (variables (objs s' ! 0)) \<and>
      (\<exists>s''. reduce 0 [(''x2'', 1)] True s' = (Inr None, s'') \<and> pdf (objs s'' ! 0) = None)) \<and>
   valid_object singular_store 0 \<and>
   pdf (objs singular_store ! 0) = None \<and>
   lapack_inv (array_of singular_store (K (objs singular_store ! 0)))
     = Inl (LinAlgError ''Singular matrix'') \<and>
   assignment lapack_inv 0 [0, 0] singular_store
     = (Inl (LinAlgError ''Singular matrix''), singular_store)"
proof -
  let ?C = "\<lparr>shape = [2, 2], data = [1/2, -1/2, -1/2, 1 :: real]\<rparr>"
  have i1: "lapack_inv (array_of gaussian_store (K (objs gaussian_store ! 0))) = Inr ?C"
    using lapack_inv_exact by (simp add: gaussian_store_def array_of_def)
  have i2: "lapack_inv (array_of singular_store (K (objs singular_store ! 0)))
              = Inl (LinAlgError ''Singular matrix'')"
    using lapack_inv_zero_pivot by (simp add: singular_store_def array_of_def)
  have mC: "matrix 2 2 ?C" by (simp add: matrix_def)
  have n1: "length (variables (objs gaussian_store ! 0)) = 2" by (simp add: gaussian_store_def)
  have mC': "matrix (length (variables (objs gaussian_store ! 0)))
               (length (variables (objs gaussian_store ! 0))) ?C"
    by (simp add: matrix_def gaussian_store_def)
  have L: "length (bufs gaussian_store) = 2" by (simp add: gaussian_store_def)
  have p2: "pdf (objs singular_store ! 0) = None" by (simp add: singular_store_def)
  note c1 = density_caching[where vars = "[''x1'', ''x2'']"
      and ?K0.0 = "Sequence \<lparr>shape = [2, 2], data = [4, 2, 2, 2]\<rparr>"
      and ?h0.0 = "Sequence \<lparr>shape = [2, 1], data = [6, 2]\<rparr>" and ?g0.0 = "PyNum 1"
      and ?s0.0 = "\<lparr>bufs = [], objs = []\<rparr>" and a = 0 and ?s1.0 = gaussian_store
      and s = gaussian_store and self = 0 and args = "[0, 0]" and linalg_inv = lapack_inv]
  from c1 have p0: "pdf (objs gaussian_store ! 0) = None"
    using gaussian_store_init by blast
  from c1 p0 valid_gaussian_store i1 mC' obtain j s1 x s' where
    t: "to_joint_gaussian lapack_inv 0 gaussian_store = (Inr j, s1)"
    and a: "assignment lapack_inv 0 [0, 0] gaussian_store = (Inr x, s')"
    and p: "pdf (objs s' ! 0) = Some (Gaussian_pdf (mean j) (covariance j))"
    and cv: "array_of s' (covariance j) = ?C"
    and v': "valid_object s' 0"
    and vars: "variables (objs s' ! 0) = variables (objs gaussian_store ! 0)"
    by blast
  from to_joint_gaussian_returns[where linalg_inv = lapack_inv, OF valid_gaussian_store i1 mC'] t
  have j: "mean j = \<lparr>nd_shape = [2, 1], nd_buf = 3\<rparr>" "covariance j = \<lparr>nd_shape = [2, 2], nd_buf = 2\<rparr>"
    by (auto simp: n1 L)
  have p': "pdf (objs s' ! 0) = Some (Gaussian_pdf \<lparr>nd_shape = [2, 1], nd_buf = 3\<rparr> \<lparr>nd_shape = [2, 2], nd_buf = 2\<rparr>)"
    using p by (simp add: j)
  have sub: "set (map fst [(''x2'', 1 :: real)]) \<subseteq> set (variables (objs s' ! 0))"
    using vars by (simp add: gaussian_store_def)
  note c2 = density_caching[of _ _ _ _ _ _ _ s' 0 _ _ "[(''x2'', 1)]" True]
  from c2 v' sub have r: "\<exists>s''. reduce 0 [(''x2'', 1)] True s' = (Inr None, s'') \<and> pdf (objs s'' ! 0) = None"
    by (simp add: target_def)
  note c3 = density_caching[where s = singular_store and self = 0 and args = "[0, 0]"
      and linalg_inv = lapack_inv]
  from c3 valid_singular_store p2 i2
  have s: "assignment lapack_inv 0 [0, 0] singular_store
     = (Inl (LinAlgError ''Singular matrix''), singular_store)"
    by blast
  show ?thesis
    using gaussian_store_init p0 valid_gaussian_store i1 mC a p' cv[unfolded j] v' sub r
      valid_singular_store p2 i2 s
    by blast
qed

end
